theory Spec2Isabelle
  imports Main
begin

section \<open>FRED proxy: the TTL cache and the two request handlers\<close>

text \<open>
  The development follows the proxy server of the repository in the variant that
  normalises absent dates to \<^verbatim>\<open>none\<close>, trims batch identifiers and reports batch
  failures per identifier (\<^verbatim>\<open>src/unnamed/part_000\<close>; \<^verbatim>\<open>part_001\<close> differs only in
  how the credential is read). \<^verbatim>\<open>src/server.js\<close> keeps an earlier variant of the same
  server, without the normalisation, the trimming, the guard on the key in the batch
  handler and the \<^verbatim>\<open>try\<close> inside each task; it is not modelled.

  Conventions.
  \<^item> A JavaScript string is the \<^typ>\<open>string\<close> of the bytes of its UTF-8 encoding. A
    surrogate pair is the four bytes of its code point, and a surrogate that has no
    partner is encoded like any other code point (the three bytes \<^verbatim>\<open>ED\<close>,
    \<^verbatim>\<open>A0\<close>..\<^verbatim>\<open>BF\<close>, \<^verbatim>\<open>80\<close>..\<^verbatim>\<open>BF\<close>). The handlers only test strings for
    emptiness and equality, trim them, join them with ASCII text in between and hand
    them to platform functions, all of which the encoding preserves.
  \<^item> \<^verbatim>\<open>undefined\<close> is \<open>None\<close>: an omitted argument or property and an explicit
    \<^verbatim>\<open>undefined\<close> are the same value in JavaScript, hence the same \<open>None\<close>.
  \<^item> The identifier and the query parameters of a single-series request are strings
    or absent. They come out of the framework's UTF-8 decoding of path and query and so
    hold no lone surrogate. The \<^verbatim>\<open>series\<close> and the dates of a batch are properties of
    the parsed body: absent, or any JSON value, and their strings may hold a lone
    surrogate.
  \<^item> \<^verbatim>\<open>Date.now()\<close> is an \<^typ>\<open>int\<close> of milliseconds supplied by the caller of the
    model; nothing is assumed about it (the system clock may step back).
  \<^item> \<^verbatim>\<open>fetch\<close>, \<^verbatim>\<open>encodeURIComponent\<close> and \<^verbatim>\<open>JSON.parse\<close> are platform functions
    and enter as parameters, as do the messages of the errors the engine raises.
  \<^item> Every handler returns what it gave to \<^verbatim>\<open>res.status(...).json(...)\<close>, the cache
    afterwards and the URLs it passed to \<^verbatim>\<open>fetch\<close>, in order. What the framework
    puts on the wire for it is outside the model.
\<close>

subsection \<open>JSON values\<close>

text \<open>
  Numbers are never computed with. Of the number a \<open>JNum\<close> stands for, the handlers
  observe whether it is zero and, when it is given as a date, its text.
\<close>

datatype json =
    JNull
  | JBool bool
  | JNum int
  | JStr string
  | JArr "json list"
  | JObj "(string \<times> json) list"

text \<open>JavaScript truthiness of a JSON value.\<close>

fun truthy :: "json \<Rightarrow> bool" where
  "truthy JNull = False"
| "truthy (JBool b) = b"
| "truthy (JNum n) = (n \<noteq> 0)"
| "truthy (JStr s) = (s \<noteq> [])"
| "truthy (JArr xs) = True"
| "truthy (JObj kvs) = True"

text \<open>
  \<^verbatim>\<open>ToString\<close> of an element inside \<^verbatim>\<open>Array.prototype.join\<close> throws a
  \<^verbatim>\<open>TypeError\<close> exactly for a parsed object that has an own property
  \<^verbatim>\<open>toString\<close> (no JSON value is callable, and the inherited \<^verbatim>\<open>valueOf\<close> returns
  the object itself); a nested array joins its own elements.
\<close>

fun to_string_throws :: "json \<Rightarrow> bool" where
  "to_string_throws (JObj kvs) = (''toString'' \<in> set (map fst kvs))"
| "to_string_throws (JArr xs) = list_ex to_string_throws xs"
| "to_string_throws v = False"

subsection \<open>Strings\<close>

text \<open>
  The white space and line terminators that \<^verbatim>\<open>String.prototype.trim\<close> removes, each
  as the bytes of its encoding: U+0009 to U+000D, U+0020, U+00A0, U+1680, U+2000 to
  U+200A, U+2028, U+2029, U+202F, U+205F, U+3000 and U+FEFF.
\<close>

definition white_space :: "string list" where
  "white_space =
     [[CHR 0x09], [CHR 0x0A], [CHR 0x0B], [CHR 0x0C], [CHR 0x0D], [CHR 0x20],
      [CHR 0xC2, CHR 0xA0],
      [CHR 0xE1, CHR 0x9A, CHR 0x80],
      [CHR 0xE2, CHR 0x80, CHR 0x80], [CHR 0xE2, CHR 0x80, CHR 0x81],
      [CHR 0xE2, CHR 0x80, CHR 0x82], [CHR 0xE2, CHR 0x80, CHR 0x83],
      [CHR 0xE2, CHR 0x80, CHR 0x84], [CHR 0xE2, CHR 0x80, CHR 0x85],
      [CHR 0xE2, CHR 0x80, CHR 0x86], [CHR 0xE2, CHR 0x80, CHR 0x87],
      [CHR 0xE2, CHR 0x80, CHR 0x88], [CHR 0xE2, CHR 0x80, CHR 0x89],
      [CHR 0xE2, CHR 0x80, CHR 0x8A],
      [CHR 0xE2, CHR 0x80, CHR 0xA8], [CHR 0xE2, CHR 0x80, CHR 0xA9],
      [CHR 0xE2, CHR 0x80, CHR 0xAF],
      [CHR 0xE2, CHR 0x81, CHR 0x9F],
      [CHR 0xE3, CHR 0x80, CHR 0x80],
      [CHR 0xEF, CHR 0xBB, CHR 0xBF]]"

text \<open>
  \<open>strip ws s\<close> removes from the front of \<open>s\<close> every leading character whose
  encoding is in \<open>ws\<close>; an encoding has at most three bytes here. Trimming strips the
  front, and the back as the front of the reversed string.
\<close>

fun strip :: "string list \<Rightarrow> string \<Rightarrow> string" where
  "strip ws [] = []"
| "strip ws (a # s) =
     (if [a] \<in> set ws then strip ws s
      else if take 2 (a # s) \<in> set ws then strip ws (drop 1 s)
      else if take 3 (a # s) \<in> set ws then strip ws (drop 2 s)
      else a # s)"

definition trim :: "string \<Rightarrow> string" where
  "trim s = rev (strip (map rev white_space) (rev (strip white_space s)))"

text \<open>
  \<^verbatim>\<open>encodeURIComponent\<close> throws a \<^verbatim>\<open>URIError\<close> exactly on a string that holds a lone
  surrogate, that is the byte \<^verbatim>\<open>ED\<close> followed by a byte from \<^verbatim>\<open>A0\<close> to \<^verbatim>\<open>BF\<close>.
\<close>

fun malformed :: "string \<Rightarrow> bool" where
  "malformed (a # b # s) =
     ((a = CHR 0xED \<and> (0xA0::nat) \<le> of_char b \<and> of_char b \<le> (0xBF::nat)) \<or> malformed (b # s))"
| "malformed s = False"

text \<open>\<^verbatim>\<open>x || dflt\<close> for an optional string: absent and empty are both falsy.\<close>

definition or_else :: "string option \<Rightarrow> string \<Rightarrow> string" where
  "or_else d dflt = (case d of None \<Rightarrow> dflt | Some s \<Rightarrow> if s = [] then dflt else s)"

subsection \<open>Cache\<close>

record entry =
  data :: json
  timestamp :: int

type_synonym cache = "string \<rightharpoonup> entry"

definition CACHE_DURATION :: int where
  "CACHE_DURATION = 5 * 60 * 1000"

definition getCacheKey :: "string \<Rightarrow> string option \<Rightarrow> string option \<Rightarrow> string" where
  "getCacheKey seriesId startDate endDate =
     seriesId @ ''-'' @ or_else startDate ''none'' @ ''-'' @ or_else endDate ''none''"

text \<open>
  The test \<^verbatim>\<open>cachedData && Date.now() - cachedData.timestamp < CACHE_DURATION\<close> of both
  handlers, giving the entry when it holds. Nothing is removed from the cache on a miss.
\<close>

definition cache_hit :: "cache \<Rightarrow> string \<Rightarrow> int \<Rightarrow> entry option" where
  "cache_hit c cacheKey now =
     (case c cacheKey of
        None \<Rightarrow> None
      | Some cachedData \<Rightarrow>
          if now - timestamp cachedData < CACHE_DURATION then Some cachedData else None)"

subsection \<open>Platform and upstream\<close>

text \<open>
  \<open>env_FRED_API_KEY\<close> is \<^verbatim>\<open>process.env.FRED_API_KEY\<close>. \<open>PLACEHOLDER_API_KEY\<close> is
  the key literal of the source, which is both the fallback of \<^verbatim>\<open>FRED_API_KEY\<close> and
  the placeholder the guards compare with; the literal is not repeated here, and
  everything below holds for each value of it. \<open>encodeURIComponent\<close> is the encoding
  of the strings it accepts. \<open>JSON_parse\<close> returns the message of the
  \<^verbatim>\<open>SyntaxError\<close> on the left. \<open>trim_error v\<close> is the message of the \<^verbatim>\<open>TypeError\<close>
  the engine raises for \<^verbatim>\<open>v.trim()\<close> on a value that is no string, and \<open>uri_error\<close>
  the message of the \<^verbatim>\<open>URIError\<close> of \<^verbatim>\<open>encodeURIComponent\<close>. \<open>number_text n\<close> is
  the text of the number \<open>JNum n\<close> stands for, and \<open>to_primitive_error\<close> the message of
  the \<^verbatim>\<open>TypeError\<close> for a value that has no text.
\<close>

record platform =
  env_FRED_API_KEY :: "string option"
  PLACEHOLDER_API_KEY :: string
  encodeURIComponent :: "string \<Rightarrow> string"
  JSON_parse :: "string \<Rightarrow> string + json"
  trim_error :: "json \<Rightarrow> string"
  uri_error :: string
  number_text :: "int \<Rightarrow> string"
  to_primitive_error :: string

text \<open>
  What \<^verbatim>\<open>await fetch(url)\<close> settles to: a rejection with its message, or a response
  with its status and what reading its body gives (the text, or the message of the
  failure on the left). Every fetch is taken to settle, and a status is the number of
  an HTTP status line, from 100 to 999.
\<close>

datatype fetch_result =
    NetworkError string
  | HttpResponse nat "string + string"

definition ok :: "nat \<Rightarrow> bool" where
  "ok st = (200 \<le> st \<and> st \<le> 299)"

text \<open>\<^verbatim>\<open>await response.json()\<close>: read the body, then parse it.\<close>

definition response_json :: "platform \<Rightarrow> string + string \<Rightarrow> string + json" where
  "response_json P b = (case b of Inl m \<Rightarrow> Inl m | Inr t \<Rightarrow> JSON_parse P t)"

definition FRED_API_KEY :: "platform \<Rightarrow> string" where
  "FRED_API_KEY P = or_else (env_FRED_API_KEY P) (PLACEHOLDER_API_KEY P)"

text \<open>The guard of both handlers: the key is empty or one of the two placeholders.\<close>

definition key_unconfigured :: "platform \<Rightarrow> bool" where
  "key_unconfigured P =
     (FRED_API_KEY P = [] \<or> FRED_API_KEY P = PLACEHOLDER_API_KEY P
      \<or> FRED_API_KEY P = ''YOUR_FALLBACK_KEY_IF_ANY'')"

subsection \<open>Responses\<close>

text \<open>
  A handler either sends a status with a body, or its promise rejects before anything is
  sent (\<open>Uncaught\<close>). The batch result is the set of own properties of the
  \<^verbatim>\<open>results\<close> object, which is what \<^verbatim>\<open>res.json\<close> serialises.
\<close>

datatype body = Json json | Results "string \<rightharpoonup> json"

datatype outcome = Response nat body | Uncaught

definition error_body :: "string \<Rightarrow> body" where
  "error_body e = Json (JObj [(''error'', JStr e)])"

definition internal_error :: "string \<Rightarrow> string \<Rightarrow> json" where
  "internal_error e m = JObj [(''error'', JStr e), (''message'', JStr m)]"

subsection \<open>Single series: \<^verbatim>\<open>GET /api/fred/:seriesId\<close>\<close>

text \<open>
  The two dates of a request. They are strings of the query in the single-series
  handler and JSON values of the body in the batch.
\<close>

record 'd dates =
  start_date :: "'d option"
  end_date :: "'d option"

record single_request = "string dates" +
  seriesId :: string
  sort_order :: "string option"

text \<open>
  The URL of the single-series handler, and of the batch handler when its dates are
  strings. \<open>sortOrder\<close> is the text after \<^verbatim>\<open>sort_order=\<close>: the encoded parameter in
  the single-series handler, the literal \<^verbatim>\<open>desc\<close> in the batch.
\<close>

definition fredURL :: "platform \<Rightarrow> string \<Rightarrow> string \<Rightarrow> string option \<Rightarrow> string option \<Rightarrow> string" where
  "fredURL P sid sortOrder sd ed =
     ''https://api.stlouisfed.org/fred/series/observations?series_id='' @ encodeURIComponent P sid
       @ ''&api_key='' @ FRED_API_KEY P @ ''&file_type=json&sort_order='' @ sortOrder
       @ (case sd of
            None \<Rightarrow> []
          | Some s \<Rightarrow> if s = [] then [] else ''&observation_start='' @ encodeURIComponent P s)
       @ (case ed of
            None \<Rightarrow> []
          | Some e \<Rightarrow> if e = [] then [] else ''&observation_end='' @ encodeURIComponent P e)"

text \<open>
  \<open>now\<close> is \<^verbatim>\<open>Date.now()\<close> at the cache check, \<open>later\<close> the one at
  \<^verbatim>\<open>cache.set\<close>. The destructuring default makes an absent \<^verbatim>\<open>sort_order\<close>
  \<^verbatim>\<open>desc\<close>; an empty one stays empty.
\<close>

definition fred_handler ::
  "platform \<Rightarrow> int \<Rightarrow> (string \<Rightarrow> fetch_result) \<Rightarrow> int \<Rightarrow> cache \<Rightarrow> single_request
     \<Rightarrow> outcome \<times> cache \<times> string list" where
  "fred_handler P now fetch later c rq =
     (if seriesId rq = [] then (Response 400 (error_body ''Missing series_id parameter''), c, [])
      else if key_unconfigured P then
        (Response 500 (error_body ''Server configuration error: FRED API Key missing or invalid.''), c, [])
      else
        let cacheKey = getCacheKey (seriesId rq) (start_date rq) (end_date rq) in
        case cache_hit c cacheKey now of
          Some cachedData \<Rightarrow> (Response 200 (Json (data cachedData)), c, [])
        | None \<Rightarrow>
            let url = fredURL P (seriesId rq)
                        (encodeURIComponent P
                           (case sort_order rq of None \<Rightarrow> ''desc'' | Some s \<Rightarrow> s))
                        (start_date rq) (end_date rq);
                caught = (\<lambda>m. (Response 500
                            (Json (internal_error ''Internal server error when fetching data'' m)),
                          c, [url]))
            in case fetch url of
                 NetworkError m \<Rightarrow> caught m
               | HttpResponse st b \<Rightarrow>
                   if \<not> ok st then
                     (case b of
                        Inl m \<Rightarrow> caught m
                      | Inr errorText \<Rightarrow>
                          (Response st (Json (JObj
                             [(''error'', JStr (''Failed to fetch data from FRED for series '' @ seriesId rq)),
                              (''details'', (case JSON_parse P errorText of
                                              Inr errorDetails \<Rightarrow> errorDetails
                                            | Inl e \<Rightarrow> JStr errorText))])),
                           c, [url]))
                   else
                     (case response_json P b of
                        Inl m \<Rightarrow> caught m
                      | Inr d \<Rightarrow>
                          (Response 200 (Json d),
                           c(cacheKey \<mapsto> \<lparr>data = d, timestamp = later\<rparr>), [url])))"

subsection \<open>Batch: \<^verbatim>\<open>POST /api/fred/multiple\<close>\<close>

text \<open>
  \<open>series\<close>, \<open>start_date\<close> and \<open>end_date\<close> are the properties of \<^verbatim>\<open>req.body\<close> of
  these names: absent, or any JSON value.
\<close>

record batch_request = "json dates" +
  series :: "json option"

text \<open>
  \<^verbatim>\<open>ToString\<close> of a JSON value that has a text (\<open>to_string_throws\<close> tells which have
  none): an array is its elements joined by commas, with \<^verbatim>\<open>null\<close> as the empty text,
  and an object is \<^verbatim>\<open>[object Object]\<close>.
\<close>

fun join :: "string list \<Rightarrow> string" where
  "join [] = []"
| "join [x] = x"
| "join (x # y # ys) = x @ '','' @ join (y # ys)"

fun to_string :: "platform \<Rightarrow> json \<Rightarrow> string" where
  "to_string P JNull = ''null''"
| "to_string P (JBool b) = (if b then ''true'' else ''false'')"
| "to_string P (JNum n) = number_text P n"
| "to_string P (JStr s) = s"
| "to_string P (JArr xs) = join (map (\<lambda>x. if x = JNull then [] else to_string P x) xs)"
| "to_string P (JObj kvs) = ''[object Object]''"

text \<open>
  What the handler sees of a date of the body. \<^verbatim>\<open>start_date || 'none'\<close> inside the
  template literal of \<^verbatim>\<open>getCacheKey\<close> and \<^verbatim>\<open>if (start_date)\<close> before
  \<^verbatim>\<open>encodeURIComponent(start_date)\<close> take a falsy date as absent and a truthy one as
  its text, which may be empty (the array \<^verbatim>\<open>[]\<close>). A truthy date that has no text
  makes \<^verbatim>\<open>getCacheKey\<close> throw.
\<close>

definition date_text :: "platform \<Rightarrow> json option \<Rightarrow> string option" where
  "date_text P d =
     (case d of None \<Rightarrow> None | Some v \<Rightarrow> if truthy v then Some (to_string P v) else None)"

definition date_throws :: "json option \<Rightarrow> bool" where
  "date_throws d = (case d of None \<Rightarrow> False | Some v \<Rightarrow> truthy v \<and> to_string_throws v)"

text \<open>
  \<^verbatim>\<open>getCacheKey\<close> and the URL at the arguments of the batch handler. On dates that
  are strings they are \<open>getCacheKey\<close> and \<open>fredURL\<close> with the literal \<^verbatim>\<open>desc\<close>,
  see \<open>getCacheKey_body_strings\<close> and \<open>fredURL_body_strings\<close>.
\<close>

definition getCacheKey_body :: "platform \<Rightarrow> string \<Rightarrow> json option \<Rightarrow> json option \<Rightarrow> string" where
  "getCacheKey_body P sid startDate endDate =
     sid @ ''-'' @ (case date_text P startDate of None \<Rightarrow> ''none'' | Some t \<Rightarrow> t)
       @ ''-'' @ (case date_text P endDate of None \<Rightarrow> ''none'' | Some t \<Rightarrow> t)"

definition fredURL_body :: "platform \<Rightarrow> string \<Rightarrow> json option \<Rightarrow> json option \<Rightarrow> string" where
  "fredURL_body P sid sd ed =
     ''https://api.stlouisfed.org/fred/series/observations?series_id='' @ encodeURIComponent P sid
       @ ''&api_key='' @ FRED_API_KEY P @ ''&file_type=json&sort_order=desc''
       @ (case date_text P sd of
            None \<Rightarrow> []
          | Some t \<Rightarrow> ''&observation_start='' @ encodeURIComponent P t)
       @ (case date_text P ed of
            None \<Rightarrow> []
          | Some t \<Rightarrow> ''&observation_end='' @ encodeURIComponent P t)"

text \<open>Building that URL throws when \<^verbatim>\<open>encodeURIComponent\<close> meets a lone surrogate.\<close>

definition url_throws :: "platform \<Rightarrow> string \<Rightarrow> json option \<Rightarrow> json option \<Rightarrow> bool" where
  "url_throws P sid sd ed =
     (malformed sid
      \<or> (case date_text P sd of None \<Rightarrow> False | Some t \<Rightarrow> malformed t)
      \<or> (case date_text P ed of None \<Rightarrow> False | Some t \<Rightarrow> malformed t))"

text \<open>
  The tasks of one batch run interleaved, so each reads the platform on its own. For the
  task at index \<open>i\<close> of the array: \<open>now_at i\<close> is \<^verbatim>\<open>Date.now()\<close> at its cache
  check, \<open>fetch_at i url\<close> what its \<^verbatim>\<open>fetch\<close> settles to, \<open>later_at i\<close> is
  \<^verbatim>\<open>Date.now()\<close> at its \<^verbatim>\<open>cache.set\<close>, and \<open>settled_at i\<close> orders the moments at
  which the awaiting tasks resume for the last time (ties resume in array order). Every
  order of completion is some \<open>settled_at\<close>.
\<close>

record world =
  now_at :: "nat \<Rightarrow> int"
  fetch_at :: "nat \<Rightarrow> string \<Rightarrow> fetch_result"
  later_at :: "nat \<Rightarrow> int"
  settled_at :: "nat \<Rightarrow> nat"

text \<open>
  The object \<^verbatim>\<open>results = {}\<close>: its own properties and its prototype, which is
  \<^verbatim>\<open>Object.prototype\<close> at first and can become \<^verbatim>\<open>null\<close> or a parsed value.
\<close>

datatype prototype = ObjectPrototype | NullPrototype | Parsed json

record results =
  own :: "string \<rightharpoonup> json"
  proto :: prototype

definition empty_results :: results where
  "empty_results = \<lparr>own = Map.empty, proto = ObjectPrototype\<rparr>"

text \<open>
  The setter of the accessor \<^verbatim>\<open>__proto__\<close> of \<^verbatim>\<open>Object.prototype\<close>: an object or
  array becomes the prototype, \<^verbatim>\<open>null\<close> removes it, any other value is ignored.
\<close>

definition set_proto :: "results \<Rightarrow> json \<Rightarrow> results" where
  "set_proto r v =
     (case v of
        JObj kvs \<Rightarrow> r\<lparr>proto := Parsed v\<rparr>
      | JArr xs \<Rightarrow> r\<lparr>proto := Parsed v\<rparr>
      | JNull \<Rightarrow> r\<lparr>proto := NullPrototype\<rparr>
      | _ \<Rightarrow> r)"

text \<open>A parsed object has an own data property \<^verbatim>\<open>__proto__\<close> when the text had that key.\<close>

definition has_own_proto :: "json \<Rightarrow> bool" where
  "has_own_proto v = (case v of JObj kvs \<Rightarrow> ''__proto__'' \<in> set (map fst kvs) | _ \<Rightarrow> False)"

text \<open>
  \<^verbatim>\<open>results[k] = v\<close>. Every name but \<^verbatim>\<open>__proto__\<close> becomes or stays an own property.
  For \<^verbatim>\<open>__proto__\<close> the assignment writes an own property if there is one already, or
  if the prototype chain has a data property of that name or does not reach
  \<^verbatim>\<open>Object.prototype\<close>; otherwise it finds the accessor and calls its setter, which
  creates no own property.
\<close>

definition assign :: "results \<Rightarrow> string \<Rightarrow> json \<Rightarrow> results" where
  "assign r k v =
     (if k \<noteq> ''__proto__'' then r\<lparr>own := (own r)(k \<mapsto> v)\<rparr>
      else if own r k \<noteq> None then r\<lparr>own := (own r)(k \<mapsto> v)\<rparr>
      else
        (case proto r of
           ObjectPrototype \<Rightarrow> set_proto r v
         | NullPrototype \<Rightarrow> r\<lparr>own := (own r)(k \<mapsto> v)\<rparr>
         | Parsed p \<Rightarrow> if has_own_proto p then r\<lparr>own := (own r)(k \<mapsto> v)\<rparr> else set_proto r v))"

text \<open>
  The \<^verbatim>\<open>async\<close> function mapped over \<^verbatim>\<open>series\<close> runs synchronously up to its
  \<^verbatim>\<open>await fetch(fredURL)\<close>, while \<^verbatim>\<open>map\<close> is still going through the array; this
  is \<open>task_start\<close>. It has thrown (the promise is rejected), returned without an entry,
  returned after a cache hit, or it awaits the response with its identifier, cache key
  and URL. It throws where it stands outside its \<^verbatim>\<open>try\<close>: at \<^verbatim>\<open>trim\<close> for an
  element that is no string, at \<^verbatim>\<open>getCacheKey\<close> for a date that has no text, and after
  a cache miss at \<^verbatim>\<open>encodeURIComponent\<close> for an identifier or a date that holds a
  lone surrogate.
\<close>

datatype started =
    Threw string
  | Skipped
  | CacheHit string json
  | Awaiting string string string

definition task_start ::
  "platform \<Rightarrow> world \<Rightarrow> cache \<Rightarrow> json option \<Rightarrow> json option \<Rightarrow> nat \<Rightarrow> json \<Rightarrow> started" where
  "task_start P W c sd ed i seriesIdUntrimmed =
     (case seriesIdUntrimmed of
        JStr s \<Rightarrow>
          let sid = trim s in
          if sid = [] then Skipped
          else if date_throws sd \<or> date_throws ed then Threw (to_primitive_error P)
          else
            let cacheKey = getCacheKey_body P sid sd ed in
            (case cache_hit c cacheKey (now_at W i) of
               Some cachedData \<Rightarrow> CacheHit sid (data cachedData)
             | None \<Rightarrow>
                 if url_throws P sid sd ed then Threw (uri_error P)
                 else Awaiting sid cacheKey (fredURL_body P sid sd ed))
      | v \<Rightarrow> Threw (trim_error P v))"

text \<open>
  The rest of the function, from the settled \<^verbatim>\<open>fetch\<close> to its end. Only its last
  synchronous stretch touches \<^verbatim>\<open>cache\<close> and \<^verbatim>\<open>results\<close>, so it is one step on
  the pair of both. Its inner \<^verbatim>\<open>try\<close> catches whatever the fetch or the reading of the
  body throws.
\<close>

definition task_finish ::
  "platform \<Rightarrow> world \<Rightarrow> cache \<times> results \<Rightarrow> nat \<times> started \<Rightarrow> cache \<times> results" where
  "task_finish P W cr t =
     (case t of
        (i, Awaiting sid cacheKey url) \<Rightarrow>
          let c = fst cr; r = snd cr;
              caught = (\<lambda>m. (c, assign r sid (internal_error (''Internal error fetching '' @ sid) m)))
          in (case fetch_at W i url of
                NetworkError m \<Rightarrow> caught m
              | HttpResponse st b \<Rightarrow>
                  if ok st then
                    (case response_json P b of
                       Inl m \<Rightarrow> caught m
                     | Inr d \<Rightarrow>
                         (c(cacheKey \<mapsto> \<lparr>data = d, timestamp = later_at W i\<rparr>), assign r sid d))
                  else
                    (case b of
                       Inl m \<Rightarrow> caught m
                     | Inr errorText \<Rightarrow>
                         (c, assign r sid (JObj
                            [(''error'', JStr (''Failed to fetch '' @ sid)),
                             (''status'', JNum (int st)),
                             (''details'', JStr errorText)]))))
      | _ \<Rightarrow> cr)"

text \<open>The entry a cache hit wrote while \<^verbatim>\<open>map\<close> ran.\<close>

definition record_hit :: "results \<Rightarrow> nat \<times> started \<Rightarrow> results" where
  "record_hit r t =
     (case t of (i, CacheHit sid d) \<Rightarrow> assign r sid d | _ \<Rightarrow> r)"

definition awaiting :: "nat \<times> started \<Rightarrow> bool" where
  "awaiting t = (case t of (i, Awaiting sid cacheKey url) \<Rightarrow> True | _ \<Rightarrow> False)"

definition thrown :: "(nat \<times> started) list \<Rightarrow> string list" where
  "thrown ts = concat (map (\<lambda>t. case t of (i, Threw m) \<Rightarrow> [m] | _ \<Rightarrow> []) ts)"

definition fetched :: "(nat \<times> started) list \<Rightarrow> string list" where
  "fetched ts = concat (map (\<lambda>t. case t of (i, Awaiting sid cacheKey url) \<Rightarrow> [url] | _ \<Rightarrow> []) ts)"

text \<open>
  \<^verbatim>\<open>series.map(async ...)\<close> starts every task in array order. No task resumes
  meanwhile, so all of them check the cache as it was.
\<close>

definition start_all ::
  "platform \<Rightarrow> world \<Rightarrow> cache \<Rightarrow> json option \<Rightarrow> json option \<Rightarrow> json list
     \<Rightarrow> (nat \<times> started) list" where
  "start_all P W c sd ed xs =
     map (\<lambda>(i, x). (i, task_start P W c sd ed i x)) (enumerate 0 xs)"

text \<open>
  The awaiting tasks finish in the order of the world, on the cache as the handler found
  it and on the \<^verbatim>\<open>results\<close> the cache hits have filled.
\<close>

definition finish_all ::
  "platform \<Rightarrow> world \<Rightarrow> cache \<Rightarrow> (nat \<times> started) list \<Rightarrow> cache \<times> results" where
  "finish_all P W c ts =
     foldl (task_finish P W) (c, foldl record_hit empty_results ts)
       (sort_key (\<lambda>t. settled_at W (fst t)) (filter awaiting ts))"

text \<open>
  The \<^verbatim>\<open>try\<close> block of the handler. \<^verbatim>\<open>Promise.all\<close> rejects with the first
  rejected promise, which the outer \<^verbatim>\<open>catch\<close> answers with a 500; otherwise it waits
  for every task and the results are sent. The cache returned is the cache once all
  tasks have finished, also when the 500 went out before.
\<close>

definition fan_out ::
  "platform \<Rightarrow> world \<Rightarrow> cache \<Rightarrow> json option \<Rightarrow> json option \<Rightarrow> json list
     \<Rightarrow> outcome \<times> cache \<times> string list" where
  "fan_out P W c sd ed xs =
     (let ts = start_all P W c sd ed xs;
          final = finish_all P W c ts
      in (case thrown ts of
            [] \<Rightarrow> Response 200 (Results (own (snd final)))
          | m # ms \<Rightarrow> Response 500 (Json (internal_error
                        ''Internal server error while processing multiple series'' m)),
          fst final, fetched ts))"

text \<open>
  The logging statement that opens the handler evaluates
  \<^verbatim>\<open>series ? series.join(', ') : '[]'\<close>: a truthy value that is no array has no
  \<^verbatim>\<open>join\<close>, and the call throws outside every \<^verbatim>\<open>try\<close>.
\<close>

definition log_throws :: "json option \<Rightarrow> bool" where
  "log_throws s =
     (case s of
        None \<Rightarrow> False
      | Some (JArr xs) \<Rightarrow> list_ex to_string_throws xs
      | Some v \<Rightarrow> truthy v)"

definition isArray :: "json option \<Rightarrow> bool" where
  "isArray s = (case s of Some (JArr xs) \<Rightarrow> True | _ \<Rightarrow> False)"

definition falsy :: "json option \<Rightarrow> bool" where
  "falsy s = (case s of None \<Rightarrow> True | Some v \<Rightarrow> \<not> truthy v)"

definition elements :: "json option \<Rightarrow> json list" where
  "elements s = (case s of Some (JArr xs) \<Rightarrow> xs | _ \<Rightarrow> [])"

definition multiple_handler ::
  "platform \<Rightarrow> world \<Rightarrow> cache \<Rightarrow> batch_request \<Rightarrow> outcome \<times> cache \<times> string list" where
  "multiple_handler P W c rq =
     (if log_throws (series rq) then (Uncaught, c, [])
      else if falsy (series rq) \<or> \<not> isArray (series rq) \<or> length (elements (series rq)) = 0 then
        (Response 400 (error_body ''Missing or invalid series array in request body''), c, [])
      else if key_unconfigured P then
        (Response 500 (error_body ''Server configuration error: FRED API Key missing or invalid.''), c, [])
      else fan_out P W c (start_date rq) (end_date rq) (elements (series rq)))"

subsection \<open>Vocabulary of the statements\<close>

definition is_string :: "json \<Rightarrow> bool" where
  "is_string v = (case v of JStr s \<Rightarrow> True | _ \<Rightarrow> False)"

text \<open>The identifier an element of \<^verbatim>\<open>series\<close> stands for, if any: its trimmed text.\<close>

definition ident_of :: "json \<Rightarrow> string option" where
  "ident_of v = (case v of JStr s \<Rightarrow> if trim s = [] then None else Some (trim s) | _ \<Rightarrow> None)"

text \<open>The identifier a started task writes its entry under.\<close>

definition writes_to :: "nat \<times> started \<Rightarrow> string option" where
  "writes_to t =
     (case t of
        (i, CacheHit sid d) \<Rightarrow> Some sid
      | (i, Awaiting sid cacheKey url) \<Rightarrow> Some sid
      | _ \<Rightarrow> None)"

text \<open>
  A fetch succeeded when it resolved with a 2xx status and a body that was read and
  parsed. Everything else is an upstream HTTP error or a transport error.
\<close>

definition succeeded :: "platform \<Rightarrow> fetch_result \<Rightarrow> bool" where
  "succeeded P fr =
     (case fr of
        NetworkError m \<Rightarrow> False
      | HttpResponse st b \<Rightarrow>
          ok st \<and> (case response_json P b of Inl m \<Rightarrow> False | Inr d \<Rightarrow> True))"

text \<open>The batch request with the given dates and \<^verbatim>\<open>series\<close> array.\<close>

definition batch :: "json option \<Rightarrow> json option \<Rightarrow> json list \<Rightarrow> batch_request" where
  "batch sd ed xs = \<lparr>start_date = sd, end_date = ed, series = Some (JArr xs)\<rparr>"

text \<open>The \<^verbatim>\<open>results\<close> object a batch response carries, if it is one.\<close>

definition batch_result :: "outcome \<Rightarrow> (string \<rightharpoonup> json) option" where
  "batch_result r = (case r of Response st (Results m) \<Rightarrow> Some m | _ \<Rightarrow> None)"

text \<open>
  What \<^verbatim>\<open>results\<close> holds for an identifier: the own property of that name and, for
  \<^verbatim>\<open>__proto__\<close>, the prototype as well.
\<close>

definition held :: "results \<Rightarrow> string \<Rightarrow> json option \<times> prototype option" where
  "held r B = (own r B, if B = ''__proto__'' then Some (proto r) else None)"

text \<open>
  The task of the element \<open>x\<close> at index \<open>i\<close> throws outside its \<^verbatim>\<open>try\<close>: \<open>x\<close> is no
  string, or it stands for an identifier and a date has no text, or the cache is missed
  and the URL cannot be built.
\<close>

definition throws_outside_try ::
  "platform \<Rightarrow> world \<Rightarrow> cache \<Rightarrow> json option \<Rightarrow> json option \<Rightarrow> nat \<Rightarrow> json \<Rightarrow> bool" where
  "throws_outside_try P W c sd ed i x =
     (case ident_of x of
        None \<Rightarrow> \<not> is_string x
      | Some B \<Rightarrow>
          date_throws sd \<or> date_throws ed
          \<or> (cache_hit c (getCacheKey_body P B sd ed) (now_at W i) = None \<and> url_throws P B sd ed))"

text \<open>
  The batch request passes the two guards of the handler: \<^verbatim>\<open>series\<close> is a non-empty
  array and the key is configured.
\<close>

definition upfront_valid :: "platform \<Rightarrow> batch_request \<Rightarrow> bool" where
  "upfront_valid P rq =
     (\<not> (falsy (series rq) \<or> \<not> isArray (series rq) \<or> length (elements (series rq)) = 0)
      \<and> \<not> key_unconfigured P)"

subsection \<open>Example inputs\<close>

text \<open>
  A platform whose environment sets a key of its own, and one whose environment sets
  none (the key is then the placeholder, which the guards reject). The parser of the
  examples knows two bodies, and the only number the examples give as a date is 2020.
\<close>

definition demo_platform :: platform where
  "demo_platform =
     \<lparr>env_FRED_API_KEY = Some ''k'',
      PLACEHOLDER_API_KEY = ''placeholder'',
      encodeURIComponent = (\<lambda>s. s),
      JSON_parse = (\<lambda>t. if t = ''1'' then Inr (JNum 1)
                         else if t = ''2'' then Inr (JNum 2)
                         else Inl ''Unexpected token''),
      trim_error = (\<lambda>v. ''seriesIdUntrimmed.trim is not a function''),
      uri_error = ''URI malformed'',
      number_text = (\<lambda>n. ''2020''),
      to_primitive_error = ''Cannot convert object to primitive value''\<rparr>"

definition unset_platform :: platform where
  "unset_platform = demo_platform\<lparr>env_FRED_API_KEY := None\<rparr>"

definition gdp :: single_request where
  "gdp = \<lparr>start_date = Some ''2020-01-01'', end_date = None,
          seriesId = ''GDP'', sort_order = Some ''asc''\<rparr>"

text \<open>
  A world in which the first task of a batch is answered with the body \<^verbatim>\<open>1\<close> and every
  other task with a 404, the later tasks finishing first.
\<close>

definition demo_world :: world where
  "demo_world =
     \<lparr>now_at = (\<lambda>i. 1000),
      fetch_at = (\<lambda>i u. if i = 0 then HttpResponse 200 (Inr ''1'')
                          else HttpResponse 404 (Inr ''not found'')),
      later_at = (\<lambda>i. 2000 + int i),
      settled_at = (\<lambda>i. 10 - i)\<rparr>"

text \<open>A surrogate without its partner, U+D800.\<close>

definition lone_surrogate :: string where
  "lone_surrogate = [CHR 0xED, CHR 0xA0, CHR 0x80]"

text \<open>An upstream that answers the ascending request of \<open>gdp\<close> with \<^verbatim>\<open>1\<close> and any other with \<^verbatim>\<open>2\<close>.\<close>

definition by_order :: "string \<Rightarrow> fetch_result" where
  "by_order u =
     (if u = ''https://api.stlouisfed.org/fred/series/observations?series_id=GDP&api_key=k&file_type=json&sort_order=asc&observation_start=2020-01-01''
      then HttpResponse 200 (Inr ''1'') else HttpResponse 200 (Inr ''2''))"



section \<open>Properties\<close>

subsection \<open>Basic facts\<close>

lemma demo_configured: "\<not> key_unconfigured demo_platform"
  by (simp add: key_unconfigured_def FRED_API_KEY_def or_else_def demo_platform_def)

lemma unset_unconfigured: "key_unconfigured unset_platform"
  by (simp add: key_unconfigured_def FRED_API_KEY_def or_else_def unset_platform_def)

lemmas eval_defs =
  fred_handler_def cache_hit_def CACHE_DURATION_def getCacheKey_def or_else_def fredURL_def
  FRED_API_KEY_def key_unconfigured_def ok_def
  response_json_def error_body_def internal_error_def demo_platform_def unset_platform_def gdp_def
  Let_def

lemmas batch_defs =
  multiple_handler_def fan_out_def start_all_def finish_all_def task_start_def task_finish_def
  record_hit_def awaiting_def thrown_def fetched_def assign_def log_throws_def isArray_def
  falsy_def elements_def batch_def trim_def white_space_def demo_world_def enumerate_eq_zip
  upfront_valid_def is_string_def ident_of_def set_proto_def has_own_proto_def
  empty_results_def date_text_def date_throws_def getCacheKey_body_def fredURL_body_def
  url_throws_def throws_outside_try_def lone_surrogate_def

text \<open>On dates that are strings the batch handler builds the key and the URL of the single one.\<close>

lemma getCacheKey_body_strings:
  "getCacheKey_body P sid (map_option JStr sd) (map_option JStr ed) = getCacheKey sid sd ed"
  by (simp add: getCacheKey_body_def getCacheKey_def date_text_def or_else_def
      split: option.splits)

lemma fredURL_body_strings:
  "fredURL_body P sid (map_option JStr sd) (map_option JStr ed) = fredURL P sid ''desc'' sd ed"
  by (simp add: fredURL_body_def fredURL_def date_text_def split: option.splits)

text \<open>
  A date that is a number enters with its text, the empty array with the empty text, and
  zero like an absent date.
\<close>

lemma body_dates_example:
  "getCacheKey_body demo_platform ''GDP'' (Some (JNum 2020)) (Some (JArr [])) = ''GDP-2020-''"
  "fredURL_body demo_platform ''GDP'' (Some (JNum 2020)) (Some (JArr []))
     = ''https://api.stlouisfed.org/fred/series/observations?series_id=GDP&api_key=k&file_type=json&sort_order=desc&observation_start=2020&observation_end=''"
  "getCacheKey_body demo_platform ''GDP'' (Some (JNum 0)) (Some (JArr [JStr ''a'', JNull, JBool False]))
     = ''GDP-none-a,,false''"
  by (simp_all add: getCacheKey_body_def fredURL_body_def date_text_def FRED_API_KEY_def
      or_else_def demo_platform_def)

subsection \<open>The cache key\<close>

text \<open>
  C4. The cache key is a function of its three arguments alone, and an absent start or end
  date enters it as the text \<^verbatim>\<open>none\<close>: the key of an absent date is the key of the
  date \<^verbatim>\<open>none\<close>. An omitted and an explicitly undefined date are both \<open>None\<close>.
\<close>

theorem getCacheKey_sentinel:
  "(sid = sid' \<and> sd = sd' \<and> ed = ed' \<longrightarrow> getCacheKey sid sd ed = getCacheKey sid' sd' ed')
   \<and> getCacheKey sid None None = sid @ ''-none-none''
   \<and> (e \<noteq> [] \<longrightarrow> getCacheKey sid None (Some e) = sid @ ''-none-'' @ e)
   \<and> (s \<noteq> [] \<longrightarrow> getCacheKey sid (Some s) None = sid @ ''-'' @ s @ ''-none'')
   \<and> getCacheKey sid None ed = getCacheKey sid (Some ''none'') ed
   \<and> getCacheKey sid sd None = getCacheKey sid sd (Some ''none'')"
  by (simp add: getCacheKey_def or_else_def)

theorem getCacheKey_sentinel_witness:
  "getCacheKey ''GDP'' None None = ''GDP-none-none''
   \<and> getCacheKey ''GDP'' None (Some ''2020-12-31'') = ''GDP-none-2020-12-31''
   \<and> getCacheKey ''GDP'' (Some ''2020-01-01'') None = ''GDP-2020-01-01-none''
   \<and> getCacheKey ''GDP'' None None = getCacheKey ''GDP'' (Some ''none'') (Some ''none'')"
  using getCacheKey_sentinel[where sid = "''GDP''" and sid' = "''GDP''" and sd = None and sd' = None
      and ed = None and ed' = None and e = "''2020-12-31''" and s = "''2020-01-01''"]
    getCacheKey_sentinel[where sid = "''GDP''" and sd = "Some ''none''" and ed = "None"]
  by simp

subsection \<open>Single series\<close>






text \<open>
  C8. \<^verbatim>\<open>sort_order\<close> is no argument of the cache key. If a request was answered by a
  fetch whose payload \<open>d\<close> was stored at time \<open>T\<close>, then the same request under any
  other \<^verbatim>\<open>sort_order\<close> has the same key and, while the entry is fresh, is answered
  with \<open>d\<close> from the cache without a fetch, whatever the upstream would have said.
\<close>

theorem sort_order_shares_entry:
  assumes "fred_handler P now1 fetch1 T c rq = (Response 200 (Json d), c', [u])"
    and "now2 - T < CACHE_DURATION"
  shows "getCacheKey (seriesId (rq\<lparr>sort_order := so\<rparr>)) (start_date (rq\<lparr>sort_order := so\<rparr>))
             (end_date (rq\<lparr>sort_order := so\<rparr>))
           = getCacheKey (seriesId rq) (start_date rq) (end_date rq)
         \<and> fred_handler P now2 fetch2 later2 c' (rq\<lparr>sort_order := so\<rparr>)
             = (Response 200 (Json d), c', [])"
proof -
  let ?k = "getCacheKey (seriesId rq) (start_date rq) (end_date rq)"
  from assms(1) have ok: "seriesId rq \<noteq> []" "\<not> key_unconfigured P"
    by (auto simp: fred_handler_def split: if_splits)
  from assms(1) ok have "c' = c(?k \<mapsto> \<lparr>data = d, timestamp = T\<rparr>)"
    by (auto simp: fred_handler_def Let_def ok_def split: option.splits fetch_result.splits sum.splits if_splits)
  then have "cache_hit c' ?k now2 = Some \<lparr>data = d, timestamp = T\<rparr>"
    using assms(2) by (simp add: cache_hit_def)
  with ok show ?thesis by (simp add: fred_handler_def)
qed

theorem sort_order_shares_entry_witness:
  "fred_handler demo_platform 0 by_order 10 Map.empty gdp
     = (Response 200 (Json (JNum 1)),
        [''GDP-2020-01-01-none'' \<mapsto> \<lparr>data = JNum 1, timestamp = 10\<rparr>],
        [''https://api.stlouisfed.org/fred/series/observations?series_id=GDP&api_key=k&file_type=json&sort_order=asc&observation_start=2020-01-01''])
   \<and> fred_handler demo_platform 20 by_order 30 Map.empty (gdp\<lparr>sort_order := Some ''desc''\<rparr>)
     = (Response 200 (Json (JNum 2)),
        [''GDP-2020-01-01-none'' \<mapsto> \<lparr>data = JNum 2, timestamp = 30\<rparr>],
        [''https://api.stlouisfed.org/fred/series/observations?series_id=GDP&api_key=k&file_type=json&sort_order=desc&observation_start=2020-01-01''])
   \<and> fred_handler demo_platform 20 by_order 30
        [''GDP-2020-01-01-none'' \<mapsto> \<lparr>data = JNum 1, timestamp = 10\<rparr>] (gdp\<lparr>sort_order := Some ''desc''\<rparr>)
     = (Response 200 (Json (JNum 1)),
        [''GDP-2020-01-01-none'' \<mapsto> \<lparr>data = JNum 1, timestamp = 10\<rparr>], [])"
proof -
  let ?u = "''https://api.stlouisfed.org/fred/series/observations?series_id=GDP&api_key=k&file_type=json&sort_order=asc&observation_start=2020-01-01''"
  let ?c = "[''GDP-2020-01-01-none'' \<mapsto> \<lparr>data = JNum 1, timestamp = 10\<rparr>]"
  have first: "fred_handler demo_platform 0 by_order 10 Map.empty gdp
                 = (Response 200 (Json (JNum 1)), ?c, [?u])"
    by (simp add: eval_defs by_order_def)
  have other: "fred_handler demo_platform 20 by_order 30 Map.empty (gdp\<lparr>sort_order := Some ''desc''\<rparr>)
     = (Response 200 (Json (JNum 2)),
        [''GDP-2020-01-01-none'' \<mapsto> \<lparr>data = JNum 2, timestamp = 30\<rparr>],
        [''https://api.stlouisfed.org/fred/series/observations?series_id=GDP&api_key=k&file_type=json&sort_order=desc&observation_start=2020-01-01''])"
    by (simp add: eval_defs by_order_def)
  have fresh: "(20::int) - 10 < CACHE_DURATION" by (simp add: CACHE_DURATION_def)
  have third: "fred_handler demo_platform 20 by_order 30 ?c (gdp\<lparr>sort_order := Some ''desc''\<rparr>)
                 = (Response 200 (Json (JNum 1)), ?c, [])"
    by (rule conjunct2[OF sort_order_shares_entry[where P = demo_platform and ?now1.0 = 0
          and ?fetch1.0 = by_order and T = 10 and c = Map.empty and rq = gdp and d = "JNum 1"
          and c' = ?c and u = ?u and ?now2.0 = 20 and ?fetch2.0 = by_order and ?later2.0 = 30
          and so = "Some ''desc''", OF first fresh]])
  show ?thesis by (intro conjI first other third)
qed

subsection \<open>Batch: how the tasks compose\<close>

lemma in_start_all:
  "t \<in> set (start_all P W c sd ed xs) \<Longrightarrow>
     fst t < length xs \<and> snd t = task_start P W c sd ed (fst t) (xs ! fst t)"
  by (auto simp: start_all_def in_set_enumerate_eq)

text \<open>A task is rejected at its start exactly when it throws outside its \<^verbatim>\<open>try\<close>.\<close>

lemma task_start_throws:
  "(\<exists>m. task_start P W c sd ed i x = Threw m) \<longleftrightarrow> throws_outside_try P W c sd ed i x"
  by (cases x)
    (auto simp: task_start_def throws_outside_try_def ident_of_def is_string_def Let_def
      split: option.splits if_splits)


lemma writes_to_ident:
  "writes_to (i, task_start P W c sd ed i x) = Some B \<Longrightarrow> ident_of x = Some B"
  by (cases x)
    (auto simp: writes_to_def task_start_def ident_of_def Let_def
      split: option.splits if_splits)

lemma writes_to_start:
  "\<not> throws_outside_try P W c sd ed i x \<Longrightarrow>
     writes_to (i, task_start P W c sd ed i x) = ident_of x"
  by (cases x)
    (auto simp: writes_to_def task_start_def throws_outside_try_def ident_of_def is_string_def
      Let_def split: option.splits if_splits)

lemma no_throw_strings:
  assumes "\<forall>i<length xs. \<not> throws_outside_try P W c sd ed i (xs ! i)"
  shows "\<forall>x\<in>set xs. is_string x"
proof
  fix x assume "x \<in> set xs"
  then obtain i where i: "i < length xs" and x: "xs ! i = x" by (auto simp: in_set_conv_nth)
  from assms i x have "\<not> throws_outside_try P W c sd ed i x" by auto
  then show "is_string x"
    by (cases x) (auto simp: throws_outside_try_def ident_of_def is_string_def)
qed

lemma thrown_none:
  assumes "\<forall>i<length xs. \<not> throws_outside_try P W c sd ed i (xs ! i)"
  shows "thrown (start_all P W c sd ed xs) = []"
proof -
  have "\<And>t. t \<in> set (start_all P W c sd ed xs) \<Longrightarrow> (case t of (i, Threw m) \<Rightarrow> [m] | _ \<Rightarrow> []) = []"
  proof -
    fix t assume t: "t \<in> set (start_all P W c sd ed xs)"
    from in_start_all[OF t] have i: "fst t < length xs"
      and s: "snd t = task_start P W c sd ed (fst t) (xs ! fst t)" by simp_all
    from assms i have "\<not> throws_outside_try P W c sd ed (fst t) (xs ! fst t)" by blast
    then have "\<And>m. task_start P W c sd ed (fst t) (xs ! fst t) \<noteq> Threw m"
      using task_start_throws[of P W c sd ed "fst t" "xs ! fst t"] by blast
    with s have "\<And>m. snd t \<noteq> Threw m" by simp
    then show "(case t of (i, Threw m) \<Rightarrow> [m] | _ \<Rightarrow> []) = []"
      by (cases t) (auto split: started.splits)
  qed
  then show ?thesis by (simp add: thrown_def)
qed

lemma strings_log:
  "\<forall>x\<in>set xs. is_string x \<Longrightarrow> \<not> list_ex to_string_throws xs"
proof -
  assume a: "\<forall>x\<in>set xs. is_string x"
  have "\<And>x. is_string x \<Longrightarrow> \<not> to_string_throws x"
    by (case_tac x) (simp_all add: is_string_def)
  with a show ?thesis by (auto simp: list_ex_iff)
qed

text \<open>
  An assignment changes what \<^verbatim>\<open>results\<close> holds for its own name only, and what it
  holds for that name afterwards depends on nothing else.
\<close>

lemma assign_other:
  "k \<noteq> B \<Longrightarrow> held (assign r k v) B = held r B"
  by (auto simp: held_def assign_def set_proto_def split: prototype.splits json.splits)

lemma assign_local:
  "held r B = held r' B \<Longrightarrow> held (assign r k v) B = held (assign r' k v) B"
proof (cases "k = B")
  case False
  assume "held r B = held r' B"
  with False show ?thesis by (simp add: assign_other)
next
  case True
  assume "held r B = held r' B"
  with True show ?thesis
    by (auto simp: held_def assign_def set_proto_def split: prototype.splits json.splits if_splits)
qed



text \<open>Whatever the state, a task that awaited its fetch ends with one assignment.\<close>

lemma task_finish_assigns:
  "\<exists>v. \<forall>c r. snd (task_finish P W (c, r) (i, Awaiting sid k url)) = assign r sid v"
proof (cases "fetch_at W i url")
  case (NetworkError m)
  then show ?thesis by (simp add: task_finish_def Let_def) blast
next
  case (HttpResponse st b)
  show ?thesis
  proof (cases "ok st")
    case True
    with HttpResponse show ?thesis
      by (cases "response_json P b") ((simp add: task_finish_def Let_def, blast)+)
  next
    case False
    with HttpResponse show ?thesis
      by (cases b) ((simp add: task_finish_def Let_def, blast)+)
  qed
qed

lemma task_finish_idle:
  "\<not> awaiting t \<Longrightarrow> task_finish P W a t = a"
  by (cases t) (auto simp: task_finish_def awaiting_def split: started.splits)

lemma task_finish_local:
  assumes "held r B = held r' B"
  shows "held (snd (task_finish P W (c, r) t)) B = held (snd (task_finish P W (c', r') t)) B"
proof (cases "awaiting t")
  case False
  with assms show ?thesis by (simp add: task_finish_idle)
next
  case True
  then obtain i sid k url where t: "t = (i, Awaiting sid k url)"
    by (cases t) (auto simp: awaiting_def split: started.splits)
  from task_finish_assigns[of P W i sid k url] obtain v
    where v: "\<And>c r. snd (task_finish P W (c, r) (i, Awaiting sid k url)) = assign r sid v"
    by blast
  have "held (assign r sid v) B = held (assign r' sid v) B" using assms by (rule assign_local)
  then show ?thesis by (simp add: t v)
qed

lemma task_finish_other:
  assumes "writes_to t \<noteq> Some B"
  shows "held (snd (task_finish P W (c, r) t)) B = held r B"
proof (cases "awaiting t")
  case False
  then show ?thesis by (simp add: task_finish_idle)
next
  case True
  then obtain i sid k url where t: "t = (i, Awaiting sid k url)"
    by (cases t) (auto simp: awaiting_def split: started.splits)
  from task_finish_assigns[of P W i sid k url] obtain v
    where v: "\<And>c r. snd (task_finish P W (c, r) (i, Awaiting sid k url)) = assign r sid v"
    by blast
  from assms t have "sid \<noteq> B" by (simp add: writes_to_def)
  then have "held (assign r sid v) B = held r B" by (rule assign_other)
  then show ?thesis by (simp add: t v)
qed

lemma finish_fold_filter:
  "held r B = held r' B \<Longrightarrow>
     held (snd (foldl (task_finish P W) (c, r) ts)) B
       = held (snd (foldl (task_finish P W) (c', r') (filter (\<lambda>t. writes_to t = Some B) ts))) B"
proof (induction ts arbitrary: c r c' r')
  case Nil
  then show ?case by simp
next
  case (Cons t ts)
  obtain c1 r1 where s1: "task_finish P W (c, r) t = (c1, r1)" by (cases "task_finish P W (c, r) t")
  show ?case
  proof (cases "writes_to t = Some B")
    case True
    obtain c2 r2 where s2: "task_finish P W (c', r') t = (c2, r2)" by (cases "task_finish P W (c', r') t")
    have "held r1 B = held r2 B"
      using task_finish_local[of r B r' P W c t c'] Cons.prems s1 s2 by simp
    from Cons.IH[of r1 r2 c1 c2] this True s1 s2 show ?thesis by simp
  next
    case False
    have "held r1 B = held r' B" using task_finish_other[of t B P W c r] False s1 Cons.prems by simp
    from Cons.IH[of r1 r' c1 c'] this False s1 show ?thesis by simp
  qed
qed

lemma record_hit_local:
  "held r B = held r' B \<Longrightarrow> held (record_hit r t) B = held (record_hit r' t) B"
proof -
  assume a: "held r B = held r' B"
  show ?thesis
  proof (cases t)
    case (Pair i s)
    show ?thesis
    proof (cases s)
      case (CacheHit sid d)
      have "held (assign r sid d) B = held (assign r' sid d) B" using a by (rule assign_local)
      with Pair CacheHit show ?thesis by (simp add: record_hit_def)
    qed (use a Pair in \<open>simp_all add: record_hit_def\<close>)
  qed
qed

lemma record_hit_other:
  "writes_to t \<noteq> Some B \<Longrightarrow> held (record_hit r t) B = held r B"
  by (cases t) (auto simp: record_hit_def writes_to_def assign_other split: started.splits)

lemma hit_fold_filter:
  "held r B = held r' B \<Longrightarrow>
     held (foldl record_hit r ts) B
       = held (foldl record_hit r' (filter (\<lambda>t. writes_to t = Some B) ts)) B"
proof (induction ts arbitrary: r r')
  case Nil
  then show ?case by simp
next
  case (Cons t ts)
  show ?case
  proof (cases "writes_to t = Some B")
    case True
    have "held (record_hit r t) B = held (record_hit r' t) B"
      using record_hit_local[of r B r' t] Cons.prems by simp
    from Cons.IH[of "record_hit r t" "record_hit r' t"] this True show ?thesis by simp
  next
    case False
    have "held (record_hit r t) B = held r' B"
      using record_hit_other[of t B r] False Cons.prems by simp
    from Cons.IH[of "record_hit r t" r'] this False show ?thesis by simp
  qed
qed



text \<open>What \<^verbatim>\<open>results\<close> holds for an identifier is a function of the tasks of that identifier alone.\<close>

lemma results_by_own_tasks:
  "held (snd (finish_all P W c ts)) B
     = held (snd (finish_all P W c' (filter (\<lambda>t. writes_to t = Some B) ts))) B"
proof -
  let ?own = "\<lambda>t. writes_to t = Some B"
  have h: "held (foldl record_hit empty_results ts) B
             = held (foldl record_hit empty_results (filter ?own ts)) B"
    by (rule hit_fold_filter) simp
  have "filter ?own (sort_key (\<lambda>t. settled_at W (fst t)) (filter awaiting ts))
          = sort_key (\<lambda>t. settled_at W (fst t)) (filter awaiting (filter ?own ts))"
    by (simp add: filter_sort conj_commute)
  with finish_fold_filter[of "foldl record_hit empty_results ts" B
        "foldl record_hit empty_results (filter ?own ts)" P W c
        "sort_key (\<lambda>t. settled_at W (fst t)) (filter awaiting ts)" c'] h
  show ?thesis
    by (simp add: finish_all_def)
qed

lemma valid_batch_fans_out:
  "\<not> key_unconfigured P \<Longrightarrow> xs \<noteq> [] \<Longrightarrow> \<not> list_ex to_string_throws xs \<Longrightarrow>
     multiple_handler P W c (batch sd ed xs) = fan_out P W c sd ed xs"
  by (simp add: multiple_handler_def batch_def log_throws_def falsy_def isArray_def elements_def)

lemma no_throw_fan_out:
  "\<forall>i<length xs. \<not> throws_outside_try P W c sd ed i (xs ! i) \<Longrightarrow>
     fst (fan_out P W c sd ed xs)
       = Response 200 (Results (own (snd (finish_all P W c (start_all P W c sd ed xs)))))"
  by (simp add: fan_out_def Let_def thrown_none)


lemma own_tasks:
  assumes "\<forall>i<length xs. \<not> throws_outside_try P W c sd ed i (xs ! i)"
  shows "filter (\<lambda>t. writes_to t = Some B) (start_all P W c sd ed xs)
     = map (\<lambda>(i, x). (i, task_start P W c sd ed i x))
         (filter (\<lambda>(i, x). ident_of x = Some B) (enumerate 0 xs))"
proof -
  let ?g = "\<lambda>(i, x). (i, task_start P W c sd ed i x)"
  have "filter ((\<lambda>t. writes_to t = Some B) \<circ> ?g) (enumerate 0 xs)
          = filter (\<lambda>(i, x). ident_of x = Some B) (enumerate 0 xs)"
  proof (rule filter_cong[OF refl])
    fix p assume p: "p \<in> set (enumerate 0 xs)"
    obtain i x where px: "p = (i, x)" by (cases p)
    from p px have i: "i < length xs" and x: "xs ! i = x" by (simp_all add: in_set_enumerate_eq)
    from assms i x have "\<not> throws_outside_try P W c sd ed i x" by blast
    then have "writes_to (i, task_start P W c sd ed i x) = ident_of x" by (rule writes_to_start)
    then show "((\<lambda>t. writes_to t = Some B) \<circ> ?g) p = (case p of (i, x) \<Rightarrow> ident_of x = Some B)"
      by (simp add: px)
  qed
  then show ?thesis by (simp add: start_all_def filter_map)
qed

lemma in_own_tasks:
  assumes "t \<in> set (filter (\<lambda>t. writes_to t = Some B) (start_all P W c sd ed xs))"
  shows "fst t < length xs \<and> ident_of (xs ! fst t) = Some B
         \<and> snd t = task_start P W c sd ed (fst t) (xs ! fst t)"
proof -
  from assms have t: "t \<in> set (start_all P W c sd ed xs)" and w: "writes_to t = Some B" by simp_all
  from in_start_all[OF t] have i: "fst t < length xs"
    and s: "snd t = task_start P W c sd ed (fst t) (xs ! fst t)" by simp_all
  have "writes_to t = writes_to (fst t, task_start P W c sd ed (fst t) (xs ! fst t))"
    using s by (cases t) simp
  with w have "writes_to (fst t, task_start P W c sd ed (fst t) (xs ! fst t)) = Some B" by simp
  then have "ident_of (xs ! fst t) = Some B" by (rule writes_to_ident)
  with i s show ?thesis by simp
qed

lemma own_task_member:
  assumes n: "\<forall>i<length xs. \<not> throws_outside_try P W c sd ed i (xs ! i)"
    and i: "i < length xs" and b: "ident_of (xs ! i) = Some B"
  shows "(i, task_start P W c sd ed i (xs ! i))
           \<in> set (filter (\<lambda>t. writes_to t = Some B) (start_all P W c sd ed xs))"
proof -
  have "(i, task_start P W c sd ed i (xs ! i)) \<in> set (start_all P W c sd ed xs)"
    using i by (force simp: start_all_def in_set_enumerate_eq)
  moreover from n i have "\<not> throws_outside_try P W c sd ed i (xs ! i)" by blast
  then have "writes_to (i, task_start P W c sd ed i (xs ! i)) = ident_of (xs ! i)"
    by (rule writes_to_start)
  ultimately show ?thesis using b by simp
qed






subsection \<open>Batch: the entry of an identifier\<close>











subsection \<open>Batch: the keys of the result\<close>

lemma assign_dom:
  "dom (own (assign r k v)) - {''__proto__''} = insert k (dom (own r)) - {''__proto__''}"
  by (auto simp: assign_def set_proto_def split: prototype.splits json.splits if_splits)

lemma task_finish_dom:
  "dom (own (snd (task_finish P W (c, r) t))) - {''__proto__''}
     = (dom (own r) \<union> {B. awaiting t \<and> writes_to t = Some B}) - {''__proto__''}"
proof (cases "awaiting t")
  case False
  then show ?thesis by (simp add: task_finish_idle)
next
  case True
  then obtain i sid k url where t: "t = (i, Awaiting sid k url)"
    by (cases t) (auto simp: awaiting_def split: started.splits)
  from task_finish_assigns[of P W i sid k url] obtain v
    where v: "\<And>c r. snd (task_finish P W (c, r) (i, Awaiting sid k url)) = assign r sid v"
    by blast
  have "{B. awaiting t \<and> writes_to t = Some B} = {sid}"
    by (auto simp: t awaiting_def writes_to_def)
  with assign_dom[of r sid v] show ?thesis by (simp add: t v)
qed

lemma finish_fold_dom:
  "dom (own (snd (foldl (task_finish P W) (c, r) ts))) - {''__proto__''}
     = (dom (own r) \<union> {B. \<exists>t\<in>set ts. awaiting t \<and> writes_to t = Some B}) - {''__proto__''}"
proof (induction ts arbitrary: c r)
  case Nil
  show ?case by simp
next
  case (Cons t ts)
  obtain c1 r1 where s: "task_finish P W (c, r) t = (c1, r1)" by (cases "task_finish P W (c, r) t")
  have "dom (own r1) - {''__proto__''}
          = (dom (own r) \<union> {B. awaiting t \<and> writes_to t = Some B}) - {''__proto__''}"
    using task_finish_dom[of P W c r t] s by simp
  moreover have "dom (own (snd (foldl (task_finish P W) (c, r) (t # ts)))) - {''__proto__''}
          = (dom (own r1) - {''__proto__''}
              \<union> {B. \<exists>t\<in>set ts. awaiting t \<and> writes_to t = Some B}) - {''__proto__''}"
    using Cons.IH[of c1 r1] s by (simp add: Un_Diff)
  ultimately show ?case by (simp add: Un_Diff) blast
qed

lemma record_hit_dom:
  "dom (own (record_hit r t)) - {''__proto__''}
     = (dom (own r) \<union> {B. \<not> awaiting t \<and> writes_to t = Some B}) - {''__proto__''}"
proof (cases t)
  case (Pair i s)
  show ?thesis
  proof (cases s)
    case (CacheHit sid d)
    have "{B. \<not> awaiting t \<and> writes_to t = Some B} = {sid}"
      by (auto simp: Pair CacheHit awaiting_def writes_to_def)
    with assign_dom[of r sid d] show ?thesis by (simp add: Pair CacheHit record_hit_def)
  qed (simp_all add: Pair record_hit_def awaiting_def writes_to_def)
qed

lemma hit_fold_dom:
  "dom (own (foldl record_hit r ts)) - {''__proto__''}
     = (dom (own r) \<union> {B. \<exists>t\<in>set ts. \<not> awaiting t \<and> writes_to t = Some B}) - {''__proto__''}"
proof (induction ts arbitrary: r)
  case Nil
  show ?case by simp
next
  case (Cons t ts)
  have "dom (own (foldl record_hit r (t # ts))) - {''__proto__''}
          = (dom (own (record_hit r t)) - {''__proto__''}
              \<union> {B. \<exists>t\<in>set ts. \<not> awaiting t \<and> writes_to t = Some B}) - {''__proto__''}"
    using Cons.IH[of "record_hit r t"] by (simp add: Un_Diff)
  with record_hit_dom[of r t] show ?case by (simp add: Un_Diff) blast
qed

lemma finish_all_dom:
  "dom (own (snd (finish_all P W c ts))) - {''__proto__''}
     = {B. \<exists>t\<in>set ts. writes_to t = Some B} - {''__proto__''}"
proof -
  have "dom (own (snd (finish_all P W c ts))) - {''__proto__''}
          = (dom (own (foldl record_hit empty_results ts))
              \<union> {B. \<exists>t\<in>set ts. awaiting t \<and> writes_to t = Some B}) - {''__proto__''}"
    unfolding finish_all_def finish_fold_dom by auto
  also have "\<dots> = ((dom (own (foldl record_hit empty_results ts)) - {''__proto__''})
              \<union> {B. \<exists>t\<in>set ts. awaiting t \<and> writes_to t = Some B}) - {''__proto__''}"
    by auto
  also have "\<dots> = {B. \<exists>t\<in>set ts. writes_to t = Some B} - {''__proto__''}"
    unfolding hit_fold_dom by (auto simp: empty_results_def)
  finally show ?thesis .
qed

text \<open>
  The keys of the batch result other than \<^verbatim>\<open>__proto__\<close>: one per identifier other than
  \<^verbatim>\<open>__proto__\<close>.
\<close>

lemma batch_keys:
  assumes n: "\<forall>i<length xs. \<not> throws_outside_try P W c sd ed i (xs ! i)"
  shows "dom (own (snd (finish_all P W c (start_all P W c sd ed xs)))) - {''__proto__''}
     = {B. \<exists>x\<in>set xs. ident_of x = Some B} - {''__proto__''}"
proof -
  have "\<And>B. (\<exists>t\<in>set (start_all P W c sd ed xs). writes_to t = Some B)
              \<longleftrightarrow> (\<exists>x\<in>set xs. ident_of x = Some B)"
  proof
    fix B assume "\<exists>t\<in>set (start_all P W c sd ed xs). writes_to t = Some B"
    then obtain t where t: "t \<in> set (start_all P W c sd ed xs)" and w: "writes_to t = Some B" by blast
    then have "t \<in> set (filter (\<lambda>t. writes_to t = Some B) (start_all P W c sd ed xs))" by simp
    from in_own_tasks[OF this] show "\<exists>x\<in>set xs. ident_of x = Some B" using nth_mem by blast
  next
    fix B assume "\<exists>x\<in>set xs. ident_of x = Some B"
    then obtain i where i: "i < length xs" and b: "ident_of (xs ! i) = Some B"
      by (auto simp: in_set_conv_nth)
    from own_task_member[OF n i b]
    show "\<exists>t\<in>set (start_all P W c sd ed xs). writes_to t = Some B" by auto
  qed
  then show ?thesis by (simp add: finish_all_dom)
qed

text \<open>
  \<^verbatim>\<open>__proto__\<close> is no key of the result unless the array names it twice: the first
  assignment to it sets the prototype and creates no property.
\<close>

lemma assign_proto_first:
  "own (assign empty_results ''__proto__'' v) = Map.empty"
  by (simp add: assign_def empty_results_def set_proto_def split: json.splits)

lemma single_task_proto:
  "own (snd (finish_all P W c [t])) ''__proto__'' = None"
proof (cases "awaiting t")
  case True
  then obtain i sid k url where t: "t = (i, Awaiting sid k url)"
    by (cases t) (auto simp: awaiting_def split: started.splits)
  from task_finish_assigns[of P W i sid k url] obtain v
    where v: "\<And>c r. snd (task_finish P W (c, r) (i, Awaiting sid k url)) = assign r sid v"
    by blast
  have "own (assign empty_results sid v) ''__proto__'' = None"
    by (cases "sid = ''__proto__''") (simp_all add: assign_proto_first, simp add: assign_def empty_results_def)
  then show ?thesis by (simp add: finish_all_def t awaiting_def record_hit_def v)
next
  case False
  have "own (record_hit empty_results t) ''__proto__'' = None"
  proof (cases t)
    case (Pair i s)
    show ?thesis
    proof (cases s)
      case (CacheHit sid d)
      have "own (assign empty_results sid d) ''__proto__'' = None"
        by (cases "sid = ''__proto__''") (simp_all add: assign_proto_first, simp add: assign_def empty_results_def)
      then show ?thesis by (simp add: Pair CacheHit record_hit_def)
    qed (simp_all add: Pair record_hit_def empty_results_def)
  qed
  with False show ?thesis by (simp add: finish_all_def)
qed

lemma proto_key_needs_two:
  assumes n: "\<forall>i<length xs. \<not> throws_outside_try P W c sd ed i (xs ! i)"
    and k: "own (snd (finish_all P W c (start_all P W c sd ed xs))) ''__proto__'' \<noteq> None"
  shows "\<exists>i j. i < j \<and> j < length xs \<and> ident_of (xs ! i) = Some ''__proto__''
           \<and> ident_of (xs ! j) = Some ''__proto__''"
proof -
  let ?Q = "\<lambda>(i, x). ident_of x = Some ''__proto__''"
  let ?g = "\<lambda>(i, x). (i, task_start P W c sd ed i x)"
  let ?L = "filter (\<lambda>t. writes_to t = Some ''__proto__'') (start_all P W c sd ed xs)"
  have L: "?L = map ?g (filter ?Q (enumerate 0 xs))" by (rule own_tasks[OF n])
  from k results_by_own_tasks[of P W c "start_all P W c sd ed xs" "''__proto__''" c]
  have kL: "own (snd (finish_all P W c ?L)) ''__proto__'' \<noteq> None" by (simp add: held_def)
  have "\<exists>a b rest. filter ?Q (enumerate 0 xs) = a # b # rest"
  proof (cases "filter ?Q (enumerate 0 xs)")
    case Nil
    with kL L show ?thesis by (simp add: finish_all_def empty_results_def)
  next
    case (Cons a l)
    show ?thesis
    proof (cases l)
      case Nil
      with Cons L have "?L = [?g a]" by simp
      with kL single_task_proto[of P W c "?g a"] show ?thesis by simp
    next
      case (Cons b rest)
      with \<open>filter ?Q (enumerate 0 xs) = a # l\<close> show ?thesis by blast
    qed
  qed
  then obtain a b rest where f: "filter ?Q (enumerate 0 xs) = a # b # rest" by blast
  have "sorted_wrt (<) (map fst (enumerate 0 xs))" by (simp add: map_fst_enumerate)
  then have "sorted_wrt (\<lambda>a b. fst a < fst b) (enumerate 0 xs)" by (simp only: sorted_wrt_map)
  then have "sorted_wrt (\<lambda>a b. fst a < fst b) (filter ?Q (enumerate 0 xs))"
    by (rule sorted_wrt_filter)
  with f have lt: "fst a < fst b" by simp
  obtain i x where a: "a = (i, x)" by (cases a)
  obtain j y where b: "b = (j, y)" by (cases b)
  from f have "a \<in> set (filter ?Q (enumerate 0 xs))" and "b \<in> set (filter ?Q (enumerate 0 xs))"
    by simp_all
  then have "(i, x) \<in> set (enumerate 0 xs)" "ident_of x = Some ''__proto__''"
    and "(j, y) \<in> set (enumerate 0 xs)" "ident_of y = Some ''__proto__''"
    by (simp_all add: a b)
  then have "ident_of (xs ! i) = Some ''__proto__''"
    and "j < length xs" and "ident_of (xs ! j) = Some ''__proto__''"
    by (simp_all add: in_set_enumerate_eq)
  moreover from lt have "i < j" by (simp add: a b)
  ultimately show ?thesis by blast
qed

subsection \<open>Batch: the cache\<close>

lemma task_finish_cache:
  "fst (task_finish P W (c, r) t) k \<noteq> c k \<Longrightarrow>
     \<exists>i sid url. t = (i, Awaiting sid k url) \<and> succeeded P (fetch_at W i url)"
  by (cases t) (auto simp: task_finish_def succeeded_def Let_def
      split: started.splits fetch_result.splits sum.splits if_splits)

lemma finish_fold_cache:
  "fst (foldl (task_finish P W) (c, r) ts) k \<noteq> c k \<Longrightarrow>
     \<exists>i sid url. (i, Awaiting sid k url) \<in> set ts \<and> succeeded P (fetch_at W i url)"
proof (induction ts arbitrary: c r)
  case Nil
  then show ?case by simp
next
  case (Cons t ts)
  obtain c1 r1 where s: "task_finish P W (c, r) t = (c1, r1)" by (cases "task_finish P W (c, r) t")
  show ?case
  proof (cases "c1 k = c k")
    case True
    with Cons.prems s have "fst (foldl (task_finish P W) (c1, r1) ts) k \<noteq> c1 k" by simp
    from Cons.IH[OF this] show ?thesis by auto
  next
    case False
    with s have "fst (task_finish P W (c, r) t) k \<noteq> c k" by simp
    from task_finish_cache[OF this] show ?thesis by auto
  qed
qed

lemma awaiting_in_start_all:
  assumes "(i, Awaiting sid k url) \<in> set (start_all P W c sd ed xs)"
  shows "i < length xs \<and> (\<exists>s. xs ! i = JStr s \<and> sid = trim s \<and> k = getCacheKey_body P (trim s) sd ed
            \<and> url = fredURL_body P (trim s) sd ed)"
proof -
  from in_start_all[OF assms] have i: "i < length xs"
    and s: "Awaiting sid k url = task_start P W c sd ed i (xs ! i)" by simp_all
  from s have "\<exists>s. xs ! i = JStr s \<and> sid = trim s \<and> k = getCacheKey_body P (trim s) sd ed
            \<and> url = fredURL_body P (trim s) sd ed"
    by (cases "xs ! i") (auto simp: task_start_def Let_def split: if_splits option.splits)
  with i show ?thesis by simp
qed

lemma fan_out_cache:
  assumes "fst (snd (fan_out P W c sd ed xs)) k \<noteq> c k"
  shows "\<exists>i s. i < length xs \<and> xs ! i = JStr s \<and> k = getCacheKey_body P (trim s) sd ed
           \<and> succeeded P (fetch_at W i (fredURL_body P (trim s) sd ed))"
proof -
  let ?ts = "start_all P W c sd ed xs"
  from assms have "fst (finish_all P W c ?ts) k \<noteq> c k" by (simp add: fan_out_def Let_def)
  then have "\<exists>i sid url. (i, Awaiting sid k url)
                \<in> set (sort_key (\<lambda>t. settled_at W (fst t)) (filter awaiting ?ts))
              \<and> succeeded P (fetch_at W i url)"
    unfolding finish_all_def by (rule finish_fold_cache)
  then obtain i sid url where m: "(i, Awaiting sid k url) \<in> set ?ts"
    and ok: "succeeded P (fetch_at W i url)" by auto
  from awaiting_in_start_all[OF m] ok show ?thesis by auto
qed

subsection \<open>Batch: what the handler answers\<close>

lemma thrown_member:
  "(i, Threw m) \<in> set ts \<Longrightarrow> thrown ts \<noteq> []"
  by (induction ts) (auto simp: thrown_def)

lemma thrown_some:
  assumes "i < length xs" and "throws_outside_try P W c sd ed i (xs ! i)"
  shows "thrown (start_all P W c sd ed xs) \<noteq> []"
proof -
  from assms(2) obtain m where "task_start P W c sd ed i (xs ! i) = Threw m"
    using task_start_throws[of P W c sd ed i "xs ! i"] by blast
  moreover have "(i, task_start P W c sd ed i (xs ! i)) \<in> set (start_all P W c sd ed xs)"
    using assms(1) by (force simp: start_all_def in_set_enumerate_eq)
  ultimately have "(i, Threw m) \<in> set (start_all P W c sd ed xs)" by simp
  then show ?thesis by (rule thrown_member)
qed

lemma fan_out_rejects:
  assumes "thrown (start_all P W c sd ed xs) \<noteq> []"
  shows "fst (fan_out P W c sd ed xs)
           = Response 500 (Json (internal_error
               ''Internal server error while processing multiple series''
               (hd (thrown (start_all P W c sd ed xs)))))"
  using assms by (cases "thrown (start_all P W c sd ed xs)") (simp_all add: fan_out_def Let_def)

lemma thrown_start:
  assumes "\<forall>p\<in>set ixs. is_string (snd p) \<longrightarrow> \<not> throws_outside_try P W c sd ed (fst p) (snd p)"
  shows "thrown (map (\<lambda>(i, x). (i, task_start P W c sd ed i x)) ixs)
     = map (trim_error P) (filter (\<lambda>v. \<not> is_string v) (map snd ixs))"
  using assms
proof (induction ixs)
  case Nil
  show ?case by (simp add: thrown_def)
next
  case (Cons p ixs)
  obtain i x where p: "p = (i, x)" by (cases p)
  have "thrown [(i, task_start P W c sd ed i x)] = (if is_string x then [] else [trim_error P x])"
  proof (cases "is_string x")
    case True
    with Cons.prems p have "\<not> throws_outside_try P W c sd ed i x" by simp
    then have "\<forall>m. task_start P W c sd ed i x \<noteq> Threw m"
      using task_start_throws[of P W c sd ed i x] by blast
    then show ?thesis using True by (cases "task_start P W c sd ed i x") (auto simp: thrown_def)
  next
    case False
    then show ?thesis
      by (cases x) (simp_all add: thrown_def task_start_def is_string_def)
  qed
  moreover have "thrown (map (\<lambda>(i, x). (i, task_start P W c sd ed i x)) ixs)
     = map (trim_error P) (filter (\<lambda>v. \<not> is_string v) (map snd ixs))"
    by (rule Cons.IH) (use Cons.prems in simp)
  ultimately show ?case using p by (simp add: thrown_def)
qed

lemma thrown_start_all:
  assumes "\<forall>i<length xs. is_string (xs ! i) \<longrightarrow> \<not> throws_outside_try P W c sd ed i (xs ! i)"
  shows "thrown (start_all P W c sd ed xs) = map (trim_error P) (filter (\<lambda>v. \<not> is_string v) xs)"
proof -
  have "\<forall>p\<in>set (enumerate 0 xs).
          is_string (snd p) \<longrightarrow> \<not> throws_outside_try P W c sd ed (fst p) (snd p)"
  proof (intro ballI impI)
    fix p assume p: "p \<in> set (enumerate 0 xs)" and s: "is_string (snd p)"
    obtain i x where px: "p = (i, x)" by (cases p)
    from p px have "i < length xs" and "xs ! i = x" by (simp_all add: in_set_enumerate_eq)
    with assms s px show "\<not> throws_outside_try P W c sd ed (fst p) (snd p)" by auto
  qed
  from thrown_start[OF this] show ?thesis by (simp add: start_all_def)
qed

text \<open>
  C10. There are batch requests that pass both guards and still fail as a whole: whenever
  the array holds an element that is no string (and the logging statement got past it),
  \<^verbatim>\<open>trim\<close> throws in the task of that element, \<^verbatim>\<open>Promise.all\<close> rejects, and the
  handler answers 500 and sends no batch result. The message is that of the first such
  element, unless the task of a string threw as well. The witness is the array of
  \<^verbatim>\<open>GDP\<close> and the number 5.
\<close>

theorem non_string_element_fails_request:
  assumes "\<not> key_unconfigured P" and "\<not> log_throws (Some (JArr xs))"
    and "x \<in> set xs" and "\<not> is_string x"
  shows "upfront_valid P (batch sd ed xs)
         \<and> (\<exists>m. fst (multiple_handler P W c (batch sd ed xs))
                  = Response 500 (Json (internal_error
                      ''Internal server error while processing multiple series'' m)))
         \<and> ((\<forall>i<length xs. is_string (xs ! i) \<longrightarrow> \<not> throws_outside_try P W c sd ed i (xs ! i))
              \<longrightarrow> fst (multiple_handler P W c (batch sd ed xs))
                    = Response 500 (Json (internal_error
                        ''Internal server error while processing multiple series''
                        (trim_error P (hd (filter (\<lambda>v. \<not> is_string v) xs))))))
         \<and> batch_result (fst (multiple_handler P W c (batch sd ed xs))) = None"
proof -
  from assms(3) have ne: "xs \<noteq> []" by auto
  from assms(3) obtain i where i: "i < length xs" and x: "xs ! i = x"
    by (auto simp: in_set_conv_nth)
  from assms(4) have "throws_outside_try P W c sd ed i x"
    by (cases x) (simp_all add: throws_outside_try_def ident_of_def is_string_def)
  with i x have t: "thrown (start_all P W c sd ed xs) \<noteq> []" using thrown_some by blast
  have h: "multiple_handler P W c (batch sd ed xs) = fan_out P W c sd ed xs"
    using assms(1,2) ne by (simp add: valid_batch_fans_out log_throws_def)
  have r: "fst (multiple_handler P W c (batch sd ed xs))
             = Response 500 (Json (internal_error
                 ''Internal server error while processing multiple series''
                 (hd (thrown (start_all P W c sd ed xs)))))"
    using fan_out_rejects[OF t] h by simp
  have v: "upfront_valid P (batch sd ed xs)"
    using assms(1) ne by (simp add: upfront_valid_def batch_def falsy_def isArray_def elements_def)
  have m: "(\<forall>i<length xs. is_string (xs ! i) \<longrightarrow> \<not> throws_outside_try P W c sd ed i (xs ! i))
              \<longrightarrow> fst (multiple_handler P W c (batch sd ed xs))
                    = Response 500 (Json (internal_error
                        ''Internal server error while processing multiple series''
                        (trim_error P (hd (filter (\<lambda>v. \<not> is_string v) xs)))))"
  proof
    assume a: "\<forall>i<length xs. is_string (xs ! i) \<longrightarrow> \<not> throws_outside_try P W c sd ed i (xs ! i)"
    from assms(3,4) have f: "filter (\<lambda>v. \<not> is_string v) xs \<noteq> []" by (auto simp: filter_empty_conv)
    have "hd (thrown (start_all P W c sd ed xs))
            = trim_error P (hd (filter (\<lambda>v. \<not> is_string v) xs))"
      using f by (simp add: thrown_start_all[OF a] hd_map)
    with r show "fst (multiple_handler P W c (batch sd ed xs))
                    = Response 500 (Json (internal_error
                        ''Internal server error while processing multiple series''
                        (trim_error P (hd (filter (\<lambda>v. \<not> is_string v) xs)))))" by simp
  qed
  from r have e: "\<exists>m. fst (multiple_handler P W c (batch sd ed xs))
                  = Response 500 (Json (internal_error
                      ''Internal server error while processing multiple series'' m))" by blast
  from r have n: "batch_result (fst (multiple_handler P W c (batch sd ed xs))) = None"
    by (simp add: batch_result_def)
  from v e m n show ?thesis by blast
qed

theorem non_string_element_fails_request_witness:
  "upfront_valid demo_platform (batch None None [JStr ''GDP'', JNum 5])
   \<and> multiple_handler demo_platform demo_world Map.empty (batch None None [JStr ''GDP'', JNum 5])
       = (Response 500 (Json (JObj
            [(''error'', JStr ''Internal server error while processing multiple series''),
             (''message'', JStr ''seriesIdUntrimmed.trim is not a function'')])),
          [''GDP-none-none'' \<mapsto> \<lparr>data = JNum 1, timestamp = 2000\<rparr>],
          [''https://api.stlouisfed.org/fred/series/observations?series_id=GDP&api_key=k&file_type=json&sort_order=desc''])"
proof -
  let ?xs = "[JStr ''GDP'', JNum 5]"
  have a: "\<not> log_throws (Some (JArr ?xs))" by (simp add: log_throws_def)
  have b: "JNum 5 \<in> set ?xs" by simp
  have c: "\<not> is_string (JNum 5)" by (simp add: is_string_def)
  have d: "\<forall>i<length ?xs. is_string (?xs ! i)
             \<longrightarrow> \<not> throws_outside_try demo_platform demo_world Map.empty None None i (?xs ! i)"
    by (simp add: All_less_Suc throws_outside_try_def ident_of_def is_string_def trim_def
        white_space_def date_throws_def url_throws_def date_text_def)
  have "snd (multiple_handler demo_platform demo_world Map.empty (batch None None ?xs))
         = ([''GDP-none-none'' \<mapsto> \<lparr>data = JNum 1, timestamp = 2000\<rparr>],
          [''https://api.stlouisfed.org/fred/series/observations?series_id=GDP&api_key=k&file_type=json&sort_order=desc''])"
    by (simp add: batch_defs eval_defs upt_rec)
  with non_string_element_fails_request[OF demo_configured a b c, of None None demo_world Map.empty] d
  show ?thesis by (simp add: prod_eq_iff internal_error_def is_string_def demo_platform_def)
qed

lemma fan_out_status:
  "fst (fan_out P W c sd ed xs) \<noteq> Response 400 b"
  by (simp add: fan_out_def Let_def split: list.splits)

text \<open>The handler answers 400 exactly for a falsy \<^verbatim>\<open>series\<close> and for the empty array.\<close>

lemma bad_request_iff:
  "fst (multiple_handler P W c rq)
       = Response 400 (error_body ''Missing or invalid series array in request body'')
   \<longleftrightarrow> falsy (series rq) \<or> series rq = Some (JArr [])"
proof (cases "series rq")
  case None
  then show ?thesis by (simp add: multiple_handler_def log_throws_def falsy_def)
next
  case (Some v)
  then show ?thesis
    by (cases v)
      (auto simp: multiple_handler_def log_throws_def falsy_def isArray_def elements_def
        fan_out_status error_body_def)
qed

text \<open>
  C6. The claim asks for a 400 when \<^verbatim>\<open>series\<close> is no list. For a truthy value that
  is no array, such as the body \<^verbatim>\<open>{"series": "GDP"}\<close>, the handler sends nothing at
  all: the logging statement calls \<^verbatim>\<open>join\<close> on the value and throws before the guard
  is reached. (A missing or falsy \<^verbatim>\<open>series\<close> and the empty array do get their 400, see
  \<open>bad_request_iff\<close>.)
\<close>

theorem series_not_a_list_throws:
  assumes "truthy v" and "\<not> isArray (Some v)"
  shows "multiple_handler P W c \<lparr>start_date = sd, end_date = ed, series = Some v\<rparr>
           = (Uncaught, c, [])"
  using assms by (cases v) (simp_all add: multiple_handler_def log_throws_def isArray_def)

theorem series_not_a_list_throws_witness:
  "multiple_handler demo_platform demo_world Map.empty
       \<lparr>start_date = None, end_date = None, series = Some (JStr ''GDP'')\<rparr>
     = (Uncaught, Map.empty, [])"
  using series_not_a_list_throws[of "JStr ''GDP''" demo_platform demo_world Map.empty None None]
  by (simp add: isArray_def)

text \<open>
  C7, as the code has it. Without a configured key neither handler ever fetches or
  touches the cache, whatever the request. A batch request that reaches the key guard,
  that is one whose \<^verbatim>\<open>series\<close> is a non-empty array the logging statement got past,
  is answered with the configuration error 500 before any task is started.
\<close>

theorem unconfigured_batch_fails_fast:
  assumes "key_unconfigured P"
  shows "snd (multiple_handler P W c rq) = (c, [])
    \<and> (\<not> log_throws (series rq) \<and> isArray (series rq) \<and> elements (series rq) \<noteq> [] \<longrightarrow>
          fst (multiple_handler P W c rq)
            = Response 500 (error_body ''Server configuration error: FRED API Key missing or invalid.''))
    \<and> snd (fred_handler P now fetch later c srq) = (c, [])"
  using assms
  by (auto simp: multiple_handler_def fred_handler_def falsy_def isArray_def elements_def
      split: option.splits json.splits)

theorem unconfigured_batch_fails_fast_witness:
  "multiple_handler unset_platform demo_world Map.empty (batch None None [JStr ''GDP'', JStr ''CPI''])
     = (Response 500 (error_body ''Server configuration error: FRED API Key missing or invalid.''),
        Map.empty, [])"
proof -
  let ?rq = "batch None None [JStr ''GDP'', JStr ''CPI'']"
  have "\<not> log_throws (series ?rq) \<and> isArray (series ?rq) \<and> elements (series ?rq) \<noteq> []"
    by (simp add: batch_def log_throws_def isArray_def elements_def)
  with unconfigured_batch_fails_fast[OF unset_unconfigured, of demo_world Map.empty ?rq]
  show ?thesis by (simp add: prod_eq_iff)
qed

text \<open>
  C7 as stated fails for a request that does not pass the guard on \<^verbatim>\<open>series\<close>, which
  comes first: without a key, the empty array is answered with the 400 of that guard and
  not with a configuration error.
\<close>

theorem unconfigured_empty_series_is_400:
  "key_unconfigured unset_platform
   \<and> fst (multiple_handler unset_platform demo_world Map.empty (batch None None []))
       = Response 400 (error_body ''Missing or invalid series array in request body'')"
  by (simp add: unset_unconfigured multiple_handler_def batch_def log_throws_def elements_def)

subsection \<open>The cache under errors\<close>

text \<open>
  C9. A fetch that did not succeed leaves the cache as it was: in the single-series
  handler, in the step that finishes one task of a batch, and in a whole batch at every
  key none of whose tasks fetched successfully. So only a successful fetch writes an
  entry.
\<close>

theorem errors_leave_cache_unchanged:
  "(\<not> succeeded P (fetch (fredURL P (seriesId rq)
                          (encodeURIComponent P
                             (case sort_order rq of None \<Rightarrow> ''desc'' | Some s \<Rightarrow> s))
                          (start_date rq) (end_date rq)))
      \<longrightarrow> fst (snd (fred_handler P now fetch later c rq)) = c)
   \<and> (\<not> succeeded P (fetch_at W i url)
      \<longrightarrow> fst (task_finish P W (c, r) (i, Awaiting sid k url)) = c)
   \<and> ((\<forall>i s. i < length (elements (series brq)) \<and> elements (series brq) ! i = JStr s
              \<and> getCacheKey_body P (trim s) (start_date brq) (end_date brq) = key
            \<longrightarrow> \<not> succeeded P (fetch_at W i
                    (fredURL_body P (trim s) (start_date brq) (end_date brq))))
      \<longrightarrow> fst (snd (multiple_handler P W c brq)) key = c key)"
proof (intro conjI impI)
  assume "\<not> succeeded P (fetch (fredURL P (seriesId rq)
                          (encodeURIComponent P
                             (case sort_order rq of None \<Rightarrow> ''desc'' | Some s \<Rightarrow> s))
                          (start_date rq) (end_date rq)))"
  then show "fst (snd (fred_handler P now fetch later c rq)) = c"
    by (auto simp: fred_handler_def Let_def succeeded_def
        split: if_splits option.splits fetch_result.splits sum.splits)
next
  assume "\<not> succeeded P (fetch_at W i url)"
  then show "fst (task_finish P W (c, r) (i, Awaiting sid k url)) = c"
    by (auto simp: task_finish_def Let_def succeeded_def split: fetch_result.splits sum.splits)
next
  assume a: "\<forall>i s. i < length (elements (series brq)) \<and> elements (series brq) ! i = JStr s
              \<and> getCacheKey_body P (trim s) (start_date brq) (end_date brq) = key
            \<longrightarrow> \<not> succeeded P (fetch_at W i
                    (fredURL_body P (trim s) (start_date brq) (end_date brq)))"
  show "fst (snd (multiple_handler P W c brq)) key = c key"
  proof (rule ccontr)
    assume n: "fst (snd (multiple_handler P W c brq)) key \<noteq> c key"
    then have "multiple_handler P W c brq
                 = fan_out P W c (start_date brq) (end_date brq) (elements (series brq))"
      by (auto simp: multiple_handler_def split: if_splits)
    with n have "fst (snd (fan_out P W c (start_date brq) (end_date brq) (elements (series brq)))) key
                   \<noteq> c key" by simp
    from fan_out_cache[OF this] a show False by blast
  qed
qed

theorem errors_leave_cache_unchanged_witness:
  "fst (snd (fred_handler demo_platform 0 (\<lambda>u. HttpResponse 503 (Inr ''down'')) 5
         [''CPI-none-none'' \<mapsto> \<lparr>data = JNum 2, timestamp = 0\<rparr>] gdp))
     = [''CPI-none-none'' \<mapsto> \<lparr>data = JNum 2, timestamp = 0\<rparr>]
   \<and> fst (task_finish demo_platform demo_world (Map.empty, empty_results)
           (1, Awaiting ''CPI'' ''CPI-none-none'' ''u'')) = Map.empty
   \<and> fst (snd (multiple_handler demo_platform demo_world Map.empty
           (batch None None [JStr ''GDP'', JStr ''CPI'']))) ''CPI-none-none'' = None"
proof -
  let ?c = "[''CPI-none-none'' \<mapsto> \<lparr>data = JNum 2, timestamp = 0\<rparr>]"
  let ?b = "batch None None [JStr ''GDP'', JStr ''CPI'']"
  have s: "\<And>u. \<not> succeeded demo_platform (HttpResponse 503 (Inr ''down''))"
    by (simp add: succeeded_def ok_def)
  have t: "\<not> succeeded demo_platform (fetch_at demo_world 1 ''u'')"
    by (simp add: succeeded_def ok_def demo_world_def)
  have b: "\<forall>i s. i < length (elements (series ?b)) \<and> elements (series ?b) ! i = JStr s
              \<and> getCacheKey_body demo_platform (trim s) (start_date ?b) (end_date ?b) = ''CPI-none-none''
            \<longrightarrow> \<not> succeeded demo_platform (fetch_at demo_world i
                    (fredURL_body demo_platform (trim s) (start_date ?b) (end_date ?b)))"
    by (auto simp: batch_def elements_def less_Suc_eq getCacheKey_body_def date_text_def trim_def
        white_space_def succeeded_def ok_def demo_world_def)
  from s t b
    errors_leave_cache_unchanged[where P = demo_platform and fetch = "\<lambda>u. HttpResponse 503 (Inr ''down'')"
      and rq = gdp and now = 0 and later = 5 and c = ?c]
    errors_leave_cache_unchanged[where P = demo_platform and W = demo_world and i = 1 and url = "''u''"
      and c = Map.empty and r = empty_results and sid = "''CPI''" and k = "''CPI-none-none''"
      and brq = ?b and key = "''CPI-none-none''"]
  show ?thesis by simp
qed

subsection \<open>Batch: one entry per identifier\<close>

lemma no_throw_batch:
  assumes v: "upfront_valid P (batch sd ed xs)"
    and n: "\<forall>i<length xs. \<not> throws_outside_try P W c sd ed i (xs ! i)"
  shows "fst (multiple_handler P W c (batch sd ed xs))
           = Response 200 (Results (own (snd (finish_all P W c (start_all P W c sd ed xs)))))"
proof -
  from v have "\<not> key_unconfigured P" and "xs \<noteq> []"
    by (auto simp: upfront_valid_def batch_def elements_def)
  with strings_log[OF no_throw_strings[OF n]]
  have "multiple_handler P W c (batch sd ed xs) = fan_out P W c sd ed xs"
    by (simp add: valid_batch_fans_out)
  with no_throw_fan_out[OF n] show ?thesis by simp
qed

text \<open>A task that throws outside its \<^verbatim>\<open>try\<close> fails the whole request.\<close>

lemma throwing_task_rejects_batch:
  assumes v: "upfront_valid P (batch sd ed xs)" and l: "\<not> log_throws (Some (JArr xs))"
    and i: "i < length xs" and t: "throws_outside_try P W c sd ed i (xs ! i)"
  shows "fst (multiple_handler P W c (batch sd ed xs))
           = Response 500 (Json (internal_error
               ''Internal server error while processing multiple series''
               (hd (thrown (start_all P W c sd ed xs)))))"
proof -
  from v have "\<not> key_unconfigured P" and "xs \<noteq> []"
    by (auto simp: upfront_valid_def batch_def elements_def)
  with l have "multiple_handler P W c (batch sd ed xs) = fan_out P W c sd ed xs"
    by (simp add: valid_batch_fans_out log_throws_def)
  with fan_out_rejects[OF thrown_some[OF i t]] show ?thesis by simp
qed




text \<open>
  C3. The claim asks for one key per trimmed, non-blank identifier. For the array that
  holds only the string \<^verbatim>\<open>__proto__\<close> the handler, with a configured key, never sends
  a batch result with a key: unless the one task throws outside its \<^verbatim>\<open>try\<close>, it
  answers 200 with the empty batch result, in every world. The assignment to
  \<^verbatim>\<open>results['__proto__']\<close> sets the prototype and creates no own property. (Every
  other identifier gets its key, see \<open>batch_result_keys\<close> below.)
\<close>

theorem proto_identifier_gets_no_entry:
  assumes "\<not> key_unconfigured P"
  shows "(\<not> throws_outside_try P W c sd ed 0 (JStr ''__proto__'')
            \<longrightarrow> fst (multiple_handler P W c (batch sd ed [JStr ''__proto__'']))
                  = Response 200 (Results Map.empty))
         \<and> (\<forall>r. batch_result (fst (multiple_handler P W c (batch sd ed [JStr ''__proto__''])))
                   = Some r \<longrightarrow> r = Map.empty)"
proof -
  let ?xs = "[JStr ''__proto__'']"
  let ?R = "own (snd (finish_all P W c (start_all P W c sd ed ?xs)))"
  have v: "upfront_valid P (batch sd ed ?xs)"
    using assms by (simp add: upfront_valid_def batch_def falsy_def isArray_def elements_def)
  have h: "multiple_handler P W c (batch sd ed ?xs) = fan_out P W c sd ed ?xs"
    using assms by (simp add: valid_batch_fans_out)
  have i: "ident_of (JStr ''__proto__'') = Some ''__proto__''"
    by (simp add: ident_of_def trim_def white_space_def)
  have ok: "fst (multiple_handler P W c (batch sd ed ?xs)) = Response 200 (Results Map.empty)"
    if t: "\<not> throws_outside_try P W c sd ed 0 (JStr ''__proto__'')"
  proof -
    from t have n: "\<forall>i<length ?xs. \<not> throws_outside_try P W c sd ed i (?xs ! i)" by simp
    have "start_all P W c sd ed ?xs = [(0, task_start P W c sd ed 0 (JStr ''__proto__''))]"
      by (simp add: start_all_def enumerate_eq_zip)
    then have "?R ''__proto__'' = None" by (simp add: single_task_proto)
    moreover have "dom ?R - {''__proto__''} = {}"
      using i by (auto simp: batch_keys[OF n])
    ultimately have "dom ?R = {}" by auto
    then have "?R = Map.empty" by simp
    with no_throw_batch[OF v n] show ?thesis by simp
  qed
  have no: "batch_result (fst (multiple_handler P W c (batch sd ed ?xs))) = None"
    if t: "throws_outside_try P W c sd ed 0 (JStr ''__proto__'')"
  proof -
    have "thrown (start_all P W c sd ed ?xs) \<noteq> []"
      by (rule thrown_some[of 0]) (use t in simp_all)
    from fan_out_rejects[OF this] h show ?thesis by (simp add: batch_result_def)
  qed
  from ok no show ?thesis
    by (cases "throws_outside_try P W c sd ed 0 (JStr ''__proto__'')")
      (simp_all add: batch_result_def)
qed

theorem proto_identifier_gets_no_entry_witness:
  "multiple_handler demo_platform demo_world Map.empty (batch None None [JStr ''__proto__''])
     = (Response 200 (Results Map.empty),
        [''__proto__-none-none'' \<mapsto> \<lparr>data = JNum 1, timestamp = 2000\<rparr>],
        [''https://api.stlouisfed.org/fred/series/observations?series_id=__proto__&api_key=k&file_type=json&sort_order=desc''])"
proof -
  have "snd (multiple_handler demo_platform demo_world Map.empty (batch None None [JStr ''__proto__'']))
          = ([''__proto__-none-none'' \<mapsto> \<lparr>data = JNum 1, timestamp = 2000\<rparr>],
        [''https://api.stlouisfed.org/fred/series/observations?series_id=__proto__&api_key=k&file_type=json&sort_order=desc''])"
    by (simp add: batch_defs eval_defs upt_rec)
  moreover have "\<not> throws_outside_try demo_platform demo_world Map.empty None None 0 (JStr ''__proto__'')"
    by (simp add: throws_outside_try_def ident_of_def trim_def white_space_def date_throws_def
        url_throws_def date_text_def)
  ultimately show ?thesis
    using proto_identifier_gets_no_entry[OF demo_configured, of demo_world Map.empty None None]
    by (simp add: prod_eq_iff)
qed

text \<open>
  The keys of a batch in which no task throws: the identifiers other than
  \<^verbatim>\<open>__proto__\<close>, and \<^verbatim>\<open>__proto__\<close> at most when the array names it twice.
\<close>

lemma batch_result_keys:
  assumes v: "upfront_valid P (batch sd ed xs)"
    and n: "\<forall>i<length xs. \<not> throws_outside_try P W c sd ed i (xs ! i)"
  shows "\<exists>r. fst (multiple_handler P W c (batch sd ed xs)) = Response 200 (Results r)
           \<and> dom r - {''__proto__''}
               = {trim s |s. JStr s \<in> set xs \<and> trim s \<noteq> []} - {''__proto__''}
           \<and> (''__proto__'' \<in> dom r \<longrightarrow>
                (\<exists>i j. i < j \<and> j < length xs \<and> ident_of (xs ! i) = Some ''__proto__''
                   \<and> ident_of (xs ! j) = Some ''__proto__''))"
proof -
  have "\<And>x B. ident_of x = Some B \<longleftrightarrow> (\<exists>s. x = JStr s \<and> trim s \<noteq> [] \<and> B = trim s)"
    by (case_tac x) (auto simp: ident_of_def)
  then have "{B. \<exists>x\<in>set xs. ident_of x = Some B} = {trim s |s. JStr s \<in> set xs \<and> trim s \<noteq> []}"
    by auto
  with no_throw_batch[OF v n] batch_keys[OF n] proto_key_needs_two[OF n] show ?thesis
    by (simp add: dom_def)
qed

text \<open>
  Named twice, \<^verbatim>\<open>__proto__\<close> can become a key. With the cached payload \<^verbatim>\<open>null\<close>
  the first assignment removes the prototype and the second creates the property. With
  a cached object that has a property \<^verbatim>\<open>__proto__\<close> of its own, the first assignment
  makes that object the prototype, where the second finds a data property instead of
  the accessor. With any other object, and with a payload that is no object, both
  assignments end in the accessor and the result stays empty.
\<close>

lemma repeated_proto_gets_entry:
  "fst (multiple_handler demo_platform demo_world
          [''__proto__-none-none'' \<mapsto> \<lparr>data = JNull, timestamp = 1000\<rparr>]
          (batch None None [JStr ''__proto__'', JStr ''__proto__'']))
     = Response 200 (Results [''__proto__'' \<mapsto> JNull])"
  "fst (multiple_handler demo_platform demo_world
          [''__proto__-none-none'' \<mapsto> \<lparr>data = JObj [(''__proto__'', JNum 1)], timestamp = 1000\<rparr>]
          (batch None None [JStr ''__proto__'', JStr ''__proto__'']))
     = Response 200 (Results [''__proto__'' \<mapsto> JObj [(''__proto__'', JNum 1)]])"
  "fst (multiple_handler demo_platform demo_world
          [''__proto__-none-none'' \<mapsto> \<lparr>data = JObj [(''a'', JNum 1)], timestamp = 1000\<rparr>]
          (batch None None [JStr ''__proto__'', JStr ''__proto__'']))
     = Response 200 (Results Map.empty)"
  "fst (multiple_handler demo_platform demo_world
          [''__proto__-none-none'' \<mapsto> \<lparr>data = JNum 1, timestamp = 1000\<rparr>]
          (batch None None [JStr ''__proto__'', JStr ''__proto__'']))
     = Response 200 (Results Map.empty)"
  by (simp_all add: batch_defs eval_defs upt_rec)

end
